theory Spec2Isabelle
  imports Complex_Main "HOL-Library.Char_ord" "HOL-Library.List_Lexorder"
begin

section \<open>Strings as Python handles them\<close>

text \<open>
  A Python \<open>str\<close> is modelled as the list of its code points, each a \<open>char\<close>: the model
  covers the strings whose code points are below 256 (ASCII and Latin-1), and
  \<open>of_char\<close> gives the code point. On these code points the functions below are
  Python's own: \<open>str.isspace\<close> accepts U+0009 to U+000D, U+001C to U+001F, the space,
  U+0085 and U+00A0; \<open>str.lower()\<close> adds 32 to \<open>A\<close> to \<open>Z\<close> and to U+00C0 to U+00DE other
  than U+00D7; \<open>str.upper()\<close> subtracts 32 from \<open>a\<close> to \<open>z\<close> and from U+00E0 to U+00FE other
  than U+00F7, and sends U+00B5 to U+039C, U+00DF to the two letters \<open>SS\<close> and U+00FF to
  U+0178. The upper-cased text can leave the 256 code points and change its length, so
  \<open>upper\<close> returns the code points as numbers.
\<close>

definition is_space :: "char \<Rightarrow> bool" where
  "is_space c =
     (c \<in> set [CHR 0x09, CHR 0x0A, CHR 0x0B, CHR 0x0C, CHR 0x0D,
               CHR 0x1C, CHR 0x1D, CHR 0x1E, CHR 0x1F, CHR 0x20,
               CHR 0x85, CHR 0xA0])"

definition strip :: "string \<Rightarrow> string" where
  "strip s = rev (dropWhile is_space (rev (dropWhile is_space s)))"

definition lstrip_char :: "char \<Rightarrow> string \<Rightarrow> string" where
  "lstrip_char d s = dropWhile (\<lambda>c. c = d) s"

definition remove_char :: "char \<Rightarrow> string \<Rightarrow> string" where
  "remove_char d s = filter (\<lambda>c. c \<noteq> d) s"

definition upper_char :: "char \<Rightarrow> nat list" where
  "upper_char c =
     (let n = of_char c :: nat in
      if (97 \<le> n \<and> n \<le> 122) \<or> (224 \<le> n \<and> n \<le> 254 \<and> n \<noteq> 247) then [n - 32]
      else if n = 181 then [924]
      else if n = 223 then [83, 83]
      else if n = 255 then [376]
      else [n])"

definition lower_char :: "char \<Rightarrow> char" where
  "lower_char c =
     (let n = of_char c :: nat in
      if (65 \<le> n \<and> n \<le> 90) \<or> (192 \<le> n \<and> n \<le> 222 \<and> n \<noteq> 215)
      then char_of (n + 32) else c)"

definition upper :: "string \<Rightarrow> nat list" where
  "upper s = concat (map upper_char s)"

text \<open>The code points of a string, to compare an upper-cased text with a literal.\<close>

definition code_points :: "string \<Rightarrow> nat list" where
  "code_points s = map of_char s"

definition lower :: "string \<Rightarrow> string" where
  "lower s = map lower_char s"

text \<open>\<open>s.split(d)\<close> for a one-character separator: always at least one field.\<close>

fun split_on :: "char \<Rightarrow> string \<Rightarrow> string list" where
  "split_on d [] = [[]]"
| "split_on d (c # cs) =
     (if c = d then [] # split_on d cs
      else (case split_on d cs of
              [] \<Rightarrow> [[c]]
            | f # fs \<Rightarrow> (c # f) # fs))"

text \<open>\<open>sep.join(parts)\<close>.\<close>

fun join :: "string \<Rightarrow> string list \<Rightarrow> string" where
  "join sep [] = []"
| "join sep [p] = p"
| "join sep (p # q # ps) = p @ sep @ join sep (q # ps)"

text \<open>\<open>needle in haystack\<close> on strings.\<close>

fun contains :: "string \<Rightarrow> string \<Rightarrow> bool" where
  "contains needle [] = (needle = [])"
| "contains needle (c # cs) =
     (take (length needle) (c # cs) = needle \<or> contains needle cs)"

section \<open>Exceptions\<close>

text \<open>
  The exceptions the program raises, catches or tells apart. \<open>HttpError status text\<close>
  is googleapiclient's error with \<open>e.resp.status\<close> and \<open>str(e)\<close>; \<open>OtherError\<close> stands
  for every other subclass of \<open>Exception\<close>.
\<close>

datatype py_exn =
    HttpError nat string
  | QuotaExceededError string
  | KeyError string
  | ValueError string
  | OtherError string

fun exn_text :: "py_exn \<Rightarrow> string" where
  "exn_text (HttpError st msg) = msg"
| "exn_text (QuotaExceededError msg) = msg"
| "exn_text (KeyError msg) = msg"
| "exn_text (ValueError msg) = msg"
| "exn_text (OtherError msg) = msg"

section \<open>ai_analyzer.py: the classifier with its two providers\<close>

text \<open>
  A provider client is what \<open>chat.completions.create(...)\<close> followed by
  \<open>.choices[0].message.content\<close> yields for a user prompt: the content, or an exception
  (network, throttling, a malformed completion). A client that was not configured is
  \<open>None\<close>. The analyzer's events record every analysis it is asked for (its type and
  prompt) and every request it sends to a provider. The sleep of the Groq rate limit
  changes wall-clock time only and is not part of the model.
\<close>

type_synonym provider = "string \<Rightarrow> py_exn + string"

datatype ai_event = AnalysisRequest string string | GroqRequest string | OpenAIRequest string

record AIAnalyzer =
  groq_client :: "provider option"
  openai_client :: "provider option"
  ai_events :: "ai_event list"

text \<open>\<open>_call_groq\<close>: the whole body is inside \<open>try\<close>; any exception gives \<open>None\<close>.\<close>

definition call_groq :: "AIAnalyzer \<Rightarrow> string \<Rightarrow> (py_exn + string option) \<times> AIAnalyzer" where
  "call_groq a prompt =
     (case groq_client a of
        None \<Rightarrow> (Inr None, a)
      | Some client \<Rightarrow>
          (let a' = a\<lparr>ai_events := ai_events a @ [GroqRequest prompt]\<rparr> in
           case client prompt of
             Inl e \<Rightarrow> (Inr None, a')
           | Inr content \<Rightarrow> (Inr (Some (strip content)), a')))"

definition call_openai :: "AIAnalyzer \<Rightarrow> string \<Rightarrow> (py_exn + string option) \<times> AIAnalyzer" where
  "call_openai a prompt =
     (case openai_client a of
        None \<Rightarrow> (Inr None, a)
      | Some client \<Rightarrow>
          (let a' = a\<lparr>ai_events := ai_events a @ [OpenAIRequest prompt]\<rparr> in
           case client prompt of
             Inl e \<Rightarrow> (Inr None, a')
           | Inr content \<Rightarrow> (Inr (Some (strip content)), a')))"

definition unavailable :: "string \<Rightarrow> string" where
  "unavailable analysis_type =
     ''Unable to generate '' @ analysis_type @ '' - AI services unavailable.''"

text \<open>
  \<open>_call_ai_api\<close>: Groq first when its client is set, OpenAI next when its client is
  set; a provider's answer is returned when it is a non-empty string; an exception of
  either call is caught and falls through; the last line returns the fixed message.
\<close>

definition openai_fallback :: "AIAnalyzer \<Rightarrow> string \<Rightarrow> string \<Rightarrow> (py_exn + string) \<times> AIAnalyzer" where
  "openai_fallback a prompt analysis_type =
     (if openai_client a \<noteq> None then
        (case call_openai a prompt of
           (Inr (Some response), a') \<Rightarrow>
             (if response \<noteq> [] then (Inr response, a')
              else (Inr (unavailable analysis_type), a'))
         | (Inr None, a') \<Rightarrow> (Inr (unavailable analysis_type), a')
         | (Inl e, a') \<Rightarrow> (Inr (unavailable analysis_type), a'))
      else (Inr (unavailable analysis_type), a))"

definition call_ai_api :: "AIAnalyzer \<Rightarrow> string \<Rightarrow> string \<Rightarrow> (py_exn + string) \<times> AIAnalyzer" where
  "call_ai_api a prompt analysis_type =
     (let a0 = a\<lparr>ai_events := ai_events a @ [AnalysisRequest analysis_type prompt]\<rparr> in
      if groq_client a0 \<noteq> None then
        (case call_groq a0 prompt of
           (Inr (Some response), a') \<Rightarrow>
             (if response \<noteq> [] then (Inr response, a')
              else openai_fallback a' prompt analysis_type)
         | (Inr None, a') \<Rightarrow> openai_fallback a' prompt analysis_type
         | (Inl e, a') \<Rightarrow> openai_fallback a' prompt analysis_type)
      else openai_fallback a0 prompt analysis_type)"

definition analyze_content :: "AIAnalyzer \<Rightarrow> string \<Rightarrow> (py_exn + string) \<times> AIAnalyzer" where
  "analyze_content a prompt = call_ai_api a prompt ''content analysis''"

text \<open>
  A provider fails on a prompt when its client is not configured, when the call raises,
  or when the answer is empty once stripped.
\<close>

definition provider_fails :: "provider option \<Rightarrow> string \<Rightarrow> bool" where
  "provider_fails client prompt =
     (case client of
        None \<Rightarrow> True
      | Some p \<Rightarrow> (case p prompt of Inl e \<Rightarrow> True | Inr content \<Rightarrow> strip content = []))"

section \<open>optimized_youtube_analyzer.py: the data the API returns\<close>

text \<open>
  The resources are records of the fields the program reads. The parts the program
  requests (\<open>id\<close>, \<open>snippet\<close>, \<open>snippet.title\<close>, \<open>contentDetails.duration\<close>, a
  channel's \<open>statistics\<close>) are always there; a field the program reads with \<open>.get\<close> is
  optional. A statistic is delivered as a string: \<open>Num n\<close> is a string \<open>int()\<close> reads as
  \<open>n\<close>, \<open>Malformed\<close> one it rejects with \<open>ValueError\<close> (the empty string among them),
  \<open>Missing\<close> an absent key.
\<close>

datatype stat_value = Missing | Num int | Malformed

record snippet =
  sn_title :: string
  sn_description :: "string option"

record statistics =
  viewCount :: stat_value
  commentCount :: stat_value

record video_resource =
  vr_id :: string
  vr_snippet :: snippet
  vr_statistics :: "statistics option"
  vr_duration :: string

record video_data =
  vd_videoId :: string
  vd_snippet :: snippet
  vd_statistics :: statistics
  vd_duration_seconds :: nat

record search_item =
  si_videoId :: string
  si_channelId :: string
  si_channelTitle :: "string option"

record channel_resource =
  cr_title :: string
  cr_customUrl :: "string option"
  cr_description :: "string option"
  cr_subscriberCount :: stat_value
  cr_videoCount :: stat_value
  cr_viewCount :: stat_value

record channel_info =
  ci_channel_id :: string
  ci_title :: string
  ci_handle :: string
  ci_description :: string
  ci_subscriber_count :: int
  ci_video_count :: int
  ci_view_count :: int

text \<open>
  The calls the program sends to the quota-bounded API, with the arguments that vary:
  \<open>search().list(q, channelId, order, maxResults, publishedAfter)\<close> (always
  \<open>part='snippet'\<close>, \<open>type='video'\<close>), \<open>videos().list(id)\<close> (always
  \<open>part='contentDetails,snippet,statistics'\<close>) and \<open>channels().list(id)\<close>.
\<close>

datatype api_call =
    SearchList string "string option" string nat "string option"
  | VideosList string
  | ChannelsList string

text \<open>
  The remote API answers a call of a key after a history of calls (the log of developer
  key and call, oldest first) with a response or an exception, so a key can run out of
  quota at any moment. A response without \<open>items\<close> is the empty list: the program treats
  both alike.
\<close>

type_synonym api_log = "(string \<times> api_call) list"

record remote =
  search_execute :: "api_log \<Rightarrow> string \<Rightarrow> api_call \<Rightarrow> py_exn + search_item list"
  videos_execute :: "api_log \<Rightarrow> string \<Rightarrow> api_call \<Rightarrow> py_exn + video_resource list"
  channels_execute :: "api_log \<Rightarrow> string \<Rightarrow> api_call \<Rightarrow> py_exn + channel_resource list"

text \<open>The analyzer: its client's developer key and the video cache.\<close>

record OptimizedYouTubeAnalyzer =
  developerKey :: string
  video_cache :: "string \<rightharpoonup> video_data"

definition new_analyzer :: "string \<Rightarrow> OptimizedYouTubeAnalyzer" where
  "new_analyzer api_key = \<lparr>developerKey = api_key, video_cache = Map.empty\<rparr>"

subsection \<open>\<open>_parse_duration\<close>\<close>

text \<open>
  \<open>re.match(r'PT(?:(\d+)H)?(?:(\d+)M)?(?:(\d+)S)?', duration)\<close>: each optional group is
  a run of digits followed by its letter, and is skipped when that does not match.
\<close>

definition is_digit :: "char \<Rightarrow> bool" where
  "is_digit c = ((48::nat) \<le> of_char c \<and> of_char c \<le> (57::nat))"

definition digits_value :: "string \<Rightarrow> nat" where
  "digits_value ds = foldl (\<lambda>n c. 10 * n + (of_char c - 48)) 0 ds"

definition duration_group :: "char \<Rightarrow> string \<Rightarrow> nat \<times> string" where
  "duration_group unit_letter s =
     (let ds = takeWhile is_digit s; rest = dropWhile is_digit s in
      if ds \<noteq> [] \<and> rest \<noteq> [] \<and> hd rest = unit_letter
      then (digits_value ds, tl rest) else (0, s))"

definition parse_duration :: "string \<Rightarrow> nat" where
  "parse_duration duration =
     (if take 2 duration = ''PT'' then
        (case duration_group CHR ''H'' (drop 2 duration) of (hours, r1) \<Rightarrow>
         case duration_group CHR ''M'' r1 of (minutes, r2) \<Rightarrow>
         case duration_group CHR ''S'' r2 of (seconds, r3) \<Rightarrow>
           hours * 3600 + minutes * 60 + seconds)
      else 0)"

subsection \<open>\<open>get_channel_videos_with_stats\<close>\<close>

definition process_video :: "video_resource \<Rightarrow> video_data" where
  "process_video video =
     \<lparr>vd_videoId = vr_id video,
      vd_snippet = vr_snippet video,
      vd_statistics =
        (case vr_statistics video of
           None \<Rightarrow> \<lparr>viewCount = Missing, commentCount = Missing\<rparr>
         | Some st \<Rightarrow> st),
      vd_duration_seconds = parse_duration (vr_duration video)\<rparr>"

definition cache_videos :: "(string \<rightharpoonup> video_data) \<Rightarrow> video_data list \<Rightarrow> (string \<rightharpoonup> video_data)" where
  "cache_videos cache vs = foldl (\<lambda>m v. m(vd_videoId v \<mapsto> v)) cache vs"

text \<open>
  The body of the \<open>try\<close>: the search call; nothing more when it returns no item;
  otherwise one \<open>videos().list\<close> call for all ids joined by commas. An exception of
  either call leaves the body at that point.
\<close>

definition fetch_videos_body ::
  "remote \<Rightarrow> OptimizedYouTubeAnalyzer \<Rightarrow> api_log \<Rightarrow> string \<Rightarrow> nat \<Rightarrow>
     (py_exn + video_data list) \<times> OptimizedYouTubeAnalyzer \<times> api_log" where
  "fetch_videos_body R an calls channel_id max_results =
     (let k = developerKey an;
          search_call = SearchList [] (Some channel_id) ''date'' max_results None;
          calls1 = calls @ [(k, search_call)] in
      case search_execute R calls k search_call of
        Inl e \<Rightarrow> (Inl e, an, calls1)
      | Inr items \<Rightarrow>
          if items = [] then (Inr [], an, calls1)
          else
            (let video_ids = map si_videoId items;
                 videos_call = VideosList (join '','' video_ids);
                 calls2 = calls1 @ [(k, videos_call)] in
             case videos_execute R calls1 k videos_call of
               Inl e \<Rightarrow> (Inl e, an, calls2)
             | Inr videos \<Rightarrow>
                 (let processed_videos = map process_video videos in
                  (Inr processed_videos,
                   an\<lparr>video_cache := cache_videos (video_cache an) processed_videos\<rparr>,
                   calls2))))"

text \<open>\<open>except Exception\<close>: the error is logged and the empty list returned.\<close>

definition get_channel_videos_with_stats ::
  "remote \<Rightarrow> OptimizedYouTubeAnalyzer \<Rightarrow> api_log \<Rightarrow> string \<Rightarrow> nat \<Rightarrow>
     (py_exn + video_data list) \<times> OptimizedYouTubeAnalyzer \<times> api_log" where
  "get_channel_videos_with_stats R an calls channel_id max_results =
     (case fetch_videos_body R an calls channel_id max_results of
        (Inl e, an', calls') \<Rightarrow> (Inr [], an', calls')
      | (Inr videos, an', calls') \<Rightarrow> (Inr videos, an', calls'))"

subsection \<open>\<open>calculate_engagement_from_cached_videos\<close>\<close>

text \<open>\<open>int(stats.get(key, 0))\<close>.\<close>

fun py_int :: "stat_value \<Rightarrow> py_exn + int" where
  "py_int Missing = Inr 0"
| "py_int (Num n) = Inr n"
| "py_int Malformed = Inl (ValueError ''invalid literal for int()'')"

text \<open>
  The summary is kept as the numbers the program formats (the average comments and, for
  the rate, the average views), not as the formatted text.
\<close>

datatype engagement =
    NoRecentVideos
  | NoVideoData
  | CommentsWithRate int int
  | CommentsPerVideo int
  | CouldNotCalculate

fun engagement_loop :: "video_data list \<Rightarrow> int \<Rightarrow> int \<Rightarrow> nat \<Rightarrow> py_exn + (int \<times> int \<times> nat)" where
  "engagement_loop [] total_views total_comments video_count =
     Inr (total_views, total_comments, video_count)"
| "engagement_loop (video # rest) total_views total_comments video_count =
     (case py_int (viewCount (vd_statistics video)) of
        Inl e \<Rightarrow> Inl e
      | Inr views \<Rightarrow>
          (case py_int (commentCount (vd_statistics video)) of
             Inl e \<Rightarrow> Inl e
           | Inr comments \<Rightarrow>
               engagement_loop rest (total_views + views) (total_comments + comments)
                 (video_count + 1)))"

definition calculate_engagement_from_cached_videos :: "video_data list \<Rightarrow> engagement" where
  "calculate_engagement_from_cached_videos videos =
     (if videos = [] then NoRecentVideos
      else
        (case engagement_loop (take 5 videos) 0 0 0 of
           Inl e \<Rightarrow> CouldNotCalculate
         | Inr (total_views, total_comments, video_count) \<Rightarrow>
             if video_count = 0 then NoVideoData
             else
               (let avg_views = total_views div int video_count;
                    avg_comments = total_comments div int video_count in
                if avg_views > 0 then CommentsWithRate avg_comments avg_views
                else CommentsPerVideo avg_comments)))"

subsection \<open>\<open>verify_niche_from_cached_videos\<close>\<close>

definition prompt_opening :: string where
  \<open>prompt_opening =
     ''\<newline>'' @
     ''Analyze these YouTube videos and determine if this channel fits our target niche: DATING ADVICE + SELF-IMPROVEMENT for men.\<newline>'' @
     ''\<newline>'' @
     ''Video Content:\<newline>''\<close>

definition prompt_channel_label :: string where
  \<open>prompt_channel_label =
     ''\<newline>'' @
     ''\<newline>'' @
     ''Channel Description: ''\<close>

definition prompt_criteria :: string where
  \<open>prompt_criteria =
     ''\<newline>'' @
     ''\<newline>'' @
     ''PRIORITY 1 - DATING FOCUSED (automatic YES):\<newline>'' @
     ''- Dating advice & tips\<newline>'' @
     ''- How to attract women/get girlfriend\<newline>'' @
     ''- Relationship advice & psychology\<newline>'' @
     ''- Flirting & conversation with women\<newline>'' @
     ''- Masculinity & attraction tips\<newline>'' @
     ''- Dating confidence & mindset\<newline>'' @
     ''- Texting game (e.g. texting girls, texting on Tinder, Hinge, Bumble, DMs)\<newline>'' @
     ''- Dating apps (Tinder, Hinge, Bumble, etc.)\<newline>'' @
     ''- Pickup, cold approach, rizz, social skills for dating\<newline>'' @
     ''\<newline>'' @
     ''PRIORITY 2 - SELF-IMPROVEMENT WITH DATING ELEMENTS (YES if includes some dating):\<newline>'' @
     ''- Confidence building (mentions dating/women)\<newline>'' @
     ''- Social skills (includes talking to women)\<newline>'' @
     ''- Personal development (touches on relationships)\<newline>'' @
     ''- Psychology tips (covers attraction/dating)\<newline>'' @
     ''- Charisma & communication (mentions dating context)\<newline>'' @
     ''\<newline>'' @
     ''REJECT - PURE GENERAL CONTENT (NO unless dating mentioned):\<newline>'' @
     ''- Pure productivity/business only\<newline>'' @
     ''- Fitness only (unless looks/attraction focused)\<newline>'' @
     ''- Mental health only (unless dating anxiety)\<newline>'' @
     ''- Pure motivational content\<newline>'' @
     ''\<newline>'' @
     ''QUESTION: Does this channel help men with dating, attracting women, OR self-improvement that includes dating/relationship elements? (INCLUDING texting game, dating apps, flirting, pickup, DMs, etc.)\<newline>'' @
     ''\<newline>'' @
     ''Respond with:\<newline>'' @
     ''1. YES or NO\<newline>'' @
     ''2. One sentence explaining why (mention dating relevance)\<newline>'' @
     ''3. Specific category (e.g. "Dating Advice", "Dating + Self-Improvement", "Texting Game", "Dating Apps", "Social Skills + Dating", "Masculinity", etc.)\<newline>'' @
     ''\<newline>'' @
     ''Format: YES/NO | Explanation | Category\<newline>''\<close>

definition video_content :: "video_data \<Rightarrow> string" where
  "video_content video =
     ''Title: '' @ sn_title (vd_snippet video) @ ''\<newline>Description: '' @
     take 200 (case sn_description (vd_snippet video) of None \<Rightarrow> [] | Some d \<Rightarrow> d) @ ''...''"

definition verification_prompt :: "channel_info \<Rightarrow> video_data list \<Rightarrow> string" where
  "verification_prompt info videos =
     prompt_opening @
     join ''\<newline>\<newline>'' (map video_content (take 5 videos)) @
     prompt_channel_label @ take 300 (ci_description info) @ prompt_criteria"

text \<open>
  Parsing the answer: split on \<open>|\<close>; with three fields or more the first, stripped and
  upper-cased, is compared with \<open>YES\<close>; with fewer the fixed failure triple.
\<close>

definition parse_verdict :: "string \<Rightarrow> bool \<times> string \<times> string" where
  "parse_verdict ai_response =
     (let parts = split_on CHR ''|'' ai_response in
      if length parts \<ge> 3 then
        (let decision = upper (strip (parts ! 0));
             explanation = strip (parts ! 1);
             category = strip (parts ! 2) in
         (decision = code_points ''YES'', explanation, category))
      else (False, ''Could not parse AI response'', []))"

definition verify_niche_from_cached_videos ::
  "channel_info \<Rightarrow> video_data list \<Rightarrow> AIAnalyzer \<Rightarrow> (bool \<times> string \<times> string) \<times> AIAnalyzer" where
  "verify_niche_from_cached_videos info videos ai =
     (if videos = [] then ((False, ''Could not fetch videos'', []), ai)
      else
        (case analyze_content ai (verification_prompt info videos) of
           (Inl e, ai') \<Rightarrow> ((False, ''Verification error: '' @ exn_text e, []), ai')
         | (Inr ai_response, ai') \<Rightarrow> (parse_verdict ai_response, ai')))"

section \<open>optimized_multi_api_finder.py: the orchestrator\<close>

text \<open>
  The persisted row. The follower count and the engagement are kept as the values the
  program formats into text.
\<close>

record InfluencerData =
  inf_name :: string
  inf_sex :: string
  inf_handle :: string
  inf_platform :: string
  inf_follower_count :: int
  inf_contact :: string
  inf_engagement :: engagement
  inf_niche :: string
  inf_notes :: string
  inf_status :: string

text \<open>
  The finder's state: the credential pool (\<open>api_keys\<close>, \<open>current_key_index\<close>,
  \<open>api_calls_per_key\<close>), the analyzer bound to the active key, the classifier, the
  admission range, the registry loaded at start-up (\<open>discovered_handles\<close>,
  \<open>discovered_channel_ids\<close>), the channels accepted in this run, the rows appended to
  the CSV file, and the log of the calls sent to the quota-bounded API.
\<close>

record finder =
  api_keys :: "string list"
  current_key_index :: nat
  current_analyzer :: OptimizedYouTubeAnalyzer
  ai_analyzer :: AIAnalyzer
  api_calls_per_key :: "nat \<rightharpoonup> nat"
  min_subscribers :: int
  max_subscribers :: int
  discovered_channels :: "string set"
  discovered_handles :: "string set"
  discovered_channel_ids :: "string set"
  csv_rows :: "InfluencerData list"
  api_log :: api_log

definition all_keys_exhausted :: py_exn where
  "all_keys_exhausted = QuotaExceededError ''All API keys exhausted''"

text \<open>\<open>_load_api_keys\<close>, given the keys found in the environment, in order.\<close>

definition load_api_keys :: "string list \<Rightarrow> py_exn + string list" where
  "load_api_keys env_keys =
     (if env_keys = [] then Inl (ValueError ''No YOUTUBE_API_KEY found in environment variables'')
      else Inr env_keys)"

text \<open>
  \<open>_initialize_current_analyzer\<close>: a new analyzer for the active key (building the API
  client does not fail; the Whisper fallback of the analyzer plays no part here).
\<close>

definition initialize_current_analyzer :: "finder \<Rightarrow> (py_exn + unit) \<times> finder" where
  "initialize_current_analyzer s =
     (if current_key_index s < length (api_keys s) then
        (Inr (), s\<lparr>current_analyzer := new_analyzer (api_keys s ! current_key_index s)\<rparr>)
      else (Inl all_keys_exhausted, s))"

text \<open>
  \<open>__init__\<close>, given the keys of the environment, the classifier and the registry read
  from \<open>discovered.csv\<close>.
\<close>

definition new_finder ::
  "string list \<Rightarrow> AIAnalyzer \<Rightarrow> string set \<Rightarrow> string set \<Rightarrow> py_exn + finder" where
  "new_finder env_keys ai handles channel_ids =
     (case load_api_keys env_keys of
        Inl e \<Rightarrow> Inl e
      | Inr keys \<Rightarrow>
          (case initialize_current_analyzer
                  \<lparr>api_keys = keys, current_key_index = 0,
                   current_analyzer = new_analyzer [],
                   ai_analyzer = ai,
                   api_calls_per_key = (\<lambda>i. if i < length keys then Some 0 else None),
                   min_subscribers = 10000, max_subscribers = 100000,
                   discovered_channels = {},
                   discovered_handles = handles,
                   discovered_channel_ids = channel_ids,
                   csv_rows = [], api_log = []\<rparr> of
             (Inl e, s) \<Rightarrow> Inl e
           | (Inr u, s) \<Rightarrow> Inr s))"

text \<open>
  \<open>switch_to_next_api_key\<close>: the index is advanced first and tested afterwards, so the
  state the exception leaves behind has the advanced index.
\<close>

definition switch_to_next_api_key :: "finder \<Rightarrow> (py_exn + unit) \<times> finder" where
  "switch_to_next_api_key s =
     (let s1 = s\<lparr>current_key_index := current_key_index s + 1\<rparr> in
      if current_key_index s1 \<ge> length (api_keys s1) then (Inl all_keys_exhausted, s1)
      else initialize_current_analyzer s1)"

text \<open>\<open>track_api_usage\<close>: \<open>api_calls_per_key[current_key_index] += 1\<close>.\<close>

definition track_api_usage :: "finder \<Rightarrow> (py_exn + unit) \<times> finder" where
  "track_api_usage s =
     (case api_calls_per_key s (current_key_index s) of
        None \<Rightarrow> (Inl (KeyError ''current_key_index''), s)
      | Some n \<Rightarrow>
          (Inr (), s\<lparr>api_calls_per_key := (api_calls_per_key s)(current_key_index s \<mapsto> n + 1)\<rparr>))"

subsection \<open>The registry check\<close>

definition is_discovered :: "finder \<Rightarrow> channel_info \<Rightarrow> search_item option \<Rightarrow> bool" where
  "is_discovered s info item =
     (let handle = lower (lstrip_char CHR ''@'' (strip (ci_handle info)));
          custom_url = lower (remove_char CHR ''@'' (strip (ci_handle info)));
          channel_id = strip (ci_channel_id info);
          title = lower (strip (ci_title info));
          item_title =
            (case item of
               None \<Rightarrow> []
             | Some i \<Rightarrow>
                 lower (lstrip_char CHR ''@''
                   (strip (case si_channelTitle i of None \<Rightarrow> [] | Some t \<Rightarrow> t)))) in
      if \<exists>h \<in> set [handle, custom_url, title, item_title]. h \<noteq> [] \<and> h \<in> discovered_handles s
      then True
      else if channel_id \<noteq> [] \<and> channel_id \<in> discovered_channel_ids s then True
      else False)"

text \<open>The \<open>fake_channel_info\<close> of a search result: its channel title stands for the handle.\<close>

definition fake_channel_info :: "search_item \<Rightarrow> channel_info" where
  "fake_channel_info item =
     \<lparr>ci_channel_id = si_channelId item,
      ci_title = (case si_channelTitle item of None \<Rightarrow> [] | Some t \<Rightarrow> t),
      ci_handle = (case si_channelTitle item of None \<Rightarrow> [] | Some t \<Rightarrow> t),
      ci_description = [], ci_subscriber_count = 0, ci_video_count = 0, ci_view_count = 0\<rparr>"

subsection \<open>\<open>get_channel_details\<close>\<close>

definition channel_details_body :: "remote \<Rightarrow> finder \<Rightarrow> string \<Rightarrow> (py_exn + channel_info option) \<times> finder" where
  "channel_details_body R s channel_id =
     (case track_api_usage s of
        (Inl e, s1) \<Rightarrow> (Inl e, s1)
      | (Inr u, s1) \<Rightarrow>
          (let k = developerKey (current_analyzer s1);
               s2 = s1\<lparr>api_log := api_log s1 @ [(k, ChannelsList channel_id)]\<rparr> in
           case channels_execute R (api_log s1) k (ChannelsList channel_id) of
             Inl e \<Rightarrow> (Inl e, s2)
           | Inr [] \<Rightarrow> (Inr None, s2)
           | Inr (channel # others) \<Rightarrow>
               (case cr_subscriberCount channel of
                  Missing \<Rightarrow> (Inr None, s2)
                | Malformed \<Rightarrow> (Inl (ValueError ''invalid literal for int()''), s2)
                | Num subscriber_count \<Rightarrow>
                    if \<not> (min_subscribers s2 \<le> subscriber_count \<and> subscriber_count \<le> max_subscribers s2)
                    then (Inr None, s2)
                    else
                      (case py_int (cr_videoCount channel) of
                         Inl e \<Rightarrow> (Inl e, s2)
                       | Inr video_count \<Rightarrow>
                           (case py_int (cr_viewCount channel) of
                              Inl e \<Rightarrow> (Inl e, s2)
                            | Inr view_count \<Rightarrow>
                                (Inr (Some
                                   \<lparr>ci_channel_id = channel_id,
                                    ci_title = cr_title channel,
                                    ci_handle = ''@'' @ (case cr_customUrl channel of None \<Rightarrow> channel_id | Some u \<Rightarrow> u),
                                    ci_description = (case cr_description channel of None \<Rightarrow> [] | Some d \<Rightarrow> d),
                                    ci_subscriber_count = subscriber_count,
                                    ci_video_count = video_count,
                                    ci_view_count = view_count\<rparr>), s2))))))"

definition get_channel_details :: "remote \<Rightarrow> finder \<Rightarrow> string \<Rightarrow> channel_info option \<times> finder" where
  "get_channel_details R s channel_id =
     (case channel_details_body R s channel_id of
        (Inl e, s') \<Rightarrow> (None, s')
      | (Inr r, s') \<Rightarrow> (r, s'))"

subsection \<open>\<open>search_channels_by_keyword\<close>\<close>

text \<open>
  The loop over the search results, with \<open>channels_found\<close> and \<open>channel_ids_seen\<close>: a
  result is skipped when its channel was seen or accepted in this run, or when the
  registry check on the search result itself succeeds; otherwise the channel details
  are fetched and the registry check is repeated on them.
\<close>

fun scan_items ::
  "remote \<Rightarrow> search_item list \<Rightarrow> finder \<Rightarrow> channel_info list \<Rightarrow> string set \<Rightarrow>
     channel_info list \<times> finder" where
  "scan_items R [] s channels_found channel_ids_seen = (channels_found, s)"
| "scan_items R (item # items) s channels_found channel_ids_seen =
     (let channel_id = si_channelId item in
      if channel_id \<in> channel_ids_seen \<or> channel_id \<in> discovered_channels s
      then scan_items R items s channels_found channel_ids_seen
      else if is_discovered s (fake_channel_info item) (Some item)
      then scan_items R items s channels_found channel_ids_seen
      else
        (case get_channel_details R s channel_id of
           (None, s') \<Rightarrow> scan_items R items s' channels_found (insert channel_id channel_ids_seen)
         | (Some info, s') \<Rightarrow>
             if is_discovered s' info (Some item)
             then scan_items R items s' channels_found (insert channel_id channel_ids_seen)
             else scan_items R items s' (channels_found @ [info]) (insert channel_id channel_ids_seen)))"

text \<open>The body of the \<open>try\<close>: the usage counter, the keyword search, the loop.\<close>

definition search_attempt ::
  "remote \<Rightarrow> finder \<Rightarrow> string \<Rightarrow> nat \<Rightarrow> (py_exn + channel_info list) \<times> finder" where
  "search_attempt R s keyword max_results =
     (case track_api_usage s of
        (Inl e, s1) \<Rightarrow> (Inl e, s1)
      | (Inr u, s1) \<Rightarrow>
          (let k = developerKey (current_analyzer s1);
               search_call = SearchList keyword None ''relevance'' max_results
                               (Some ''2024-01-01T00:00:00Z'');
               s2 = s1\<lparr>api_log := api_log s1 @ [(k, search_call)]\<rparr> in
           case search_execute R (api_log s1) k search_call of
             Inl e \<Rightarrow> (Inl e, s2)
           | Inr items \<Rightarrow>
               (case scan_items R items s2 [] {} of
                  (channels_found, s3) \<Rightarrow> (Inr channels_found, s3))))"

text \<open>
  \<open>e.resp.status == 403 and ('quotaExceeded' in str(e) or 'dailyLimitExceeded' in str(e))\<close>
  for an \<open>HttpError\<close>.
\<close>

fun is_quota_error :: "py_exn \<Rightarrow> bool" where
  "is_quota_error (HttpError status msg) =
     (status = 403 \<and> (contains ''quotaExceeded'' msg \<or> contains ''dailyLimitExceeded'' msg))"
| "is_quota_error e = False"

lemma track_api_usage_pool:
  "track_api_usage s = (r, s') \<Longrightarrow>
     api_keys s' = api_keys s \<and> current_key_index s' = current_key_index s"
  by (auto simp: track_api_usage_def split: option.splits)

lemma get_channel_details_pool:
  "get_channel_details R s c = (r, s') \<Longrightarrow>
     api_keys s' = api_keys s \<and> current_key_index s' = current_key_index s"
  by (auto simp: get_channel_details_def channel_details_body_def Let_def
      dest!: track_api_usage_pool
      split: prod.splits sum.splits list.splits stat_value.splits if_splits)

lemma scan_items_pool:
  "scan_items R items s found seen = (r, s') \<Longrightarrow>
     api_keys s' = api_keys s \<and> current_key_index s' = current_key_index s"
proof (induction items arbitrary: s found seen)
  case Nil
  then show ?case by simp
next
  case (Cons item items)
  then show ?case
    by (auto simp: Let_def dest!: get_channel_details_pool
        split: if_splits prod.splits option.splits)
qed

lemma search_attempt_pool:
  "search_attempt R s kw n = (r, s') \<Longrightarrow>
     api_keys s' = api_keys s \<and> current_key_index s' = current_key_index s"
  by (auto simp: search_attempt_def Let_def
      dest!: track_api_usage_pool scan_items_pool
      split: prod.splits sum.splits)

lemma switch_to_next_api_key_Inr:
  "switch_to_next_api_key s = (Inr u, s') \<Longrightarrow>
     api_keys s' = api_keys s \<and> current_key_index s' = current_key_index s + 1 \<and>
     current_key_index s' < length (api_keys s)"
  by (auto simp: switch_to_next_api_key_def initialize_current_analyzer_def Let_def
      split: if_splits)

lemma retry_decreases:
  "(Inl e, s1) = search_attempt R s kw n \<Longrightarrow> (Inr u, s2) = switch_to_next_api_key s1 \<Longrightarrow>
     length (api_keys s2) - current_key_index s2 < length (api_keys s) - current_key_index s"
  using search_attempt_pool[of R s kw n "Inl e" s1] switch_to_next_api_key_Inr[of s1 u s2]
  by auto

text \<open>
  The whole function: an \<open>HttpError\<close> that signals exhausted quota switches to the next
  key and calls the function again; the \<open>QuotaExceededError\<close> of the switch leaves the
  function; every other exception is logged and the empty list returned.
\<close>

function search_channels_by_keyword ::
  "remote \<Rightarrow> finder \<Rightarrow> string \<Rightarrow> nat \<Rightarrow> (py_exn + channel_info list) \<times> finder" where
  "search_channels_by_keyword R s keyword max_results =
     (case search_attempt R s keyword max_results of
        (Inr channels_found, s1) \<Rightarrow> (Inr channels_found, s1)
      | (Inl e, s1) \<Rightarrow>
          if is_quota_error e then
            (case switch_to_next_api_key s1 of
               (Inl e2, s2) \<Rightarrow> (Inl e2, s2)
             | (Inr u, s2) \<Rightarrow> search_channels_by_keyword R s2 keyword max_results)
          else (Inr [], s1))"
  by pat_completeness auto
termination search_channels_by_keyword
  apply (relation "measure (\<lambda>(R, s, keyword, max_results). length (api_keys s) - current_key_index s)")
   apply simp
  apply clarsimp
  apply (rule retry_decreases; assumption)
  done

subsection \<open>\<open>process_channel_optimized\<close>\<close>

definition min_views_per_video :: int where
  "min_views_per_video = 1000"

definition min_videos_with_min_views :: nat where
  "min_videos_with_min_views = 8"

text \<open>
  \<open>[v for v in videos if int(v.get('statistics', {}).get('viewCount', 0)) >= m]\<close>: the
  comprehension raises at the first view count \<open>int()\<close> rejects.
\<close>

fun videos_with_min_views :: "int \<Rightarrow> video_data list \<Rightarrow> py_exn + video_data list" where
  "videos_with_min_views m [] = Inr []"
| "videos_with_min_views m (v # vs) =
     (case py_int (viewCount (vd_statistics v)) of
        Inl e \<Rightarrow> Inl e
      | Inr views \<Rightarrow>
          (case videos_with_min_views m vs of
             Inl e \<Rightarrow> Inl e
           | Inr kept \<Rightarrow> Inr (if views \<ge> m then v # kept else kept)))"

text \<open>
  The body of the \<open>try\<close>. The videos are fetched once with \<open>max_results=15\<close>; the view
  filter comes before the two usage counts, the rate-limit wait (wall-clock time only,
  not modelled) and the niche verification, which is the only place that reaches the
  classifier. An accepted channel is appended to the CSV rows and added to
  \<open>discovered_channels\<close>.
\<close>

definition process_channel_body :: "remote \<Rightarrow> finder \<Rightarrow> channel_info \<Rightarrow> (py_exn + bool) \<times> finder" where
  "process_channel_body R s info =
     (if ci_channel_id info \<in> discovered_channels s then (Inr False, s)
      else
        (case get_channel_videos_with_stats R (current_analyzer s) (api_log s)
                (ci_channel_id info) 15 of
           (Inl e, an, calls) \<Rightarrow> (Inl e, s\<lparr>current_analyzer := an, api_log := calls\<rparr>)
         | (Inr videos, an, calls) \<Rightarrow>
             (let s1 = s\<lparr>current_analyzer := an, api_log := calls\<rparr> in
              if videos = [] then (Inr False, s1)
              else
                (case videos_with_min_views min_views_per_video videos of
                   Inl e \<Rightarrow> (Inl e, s1)
                 | Inr qualifying \<Rightarrow>
                     if length qualifying < min_videos_with_min_views then (Inr False, s1)
                     else
                       (case track_api_usage s1 of
                          (Inl e, s2) \<Rightarrow> (Inl e, s2)
                        | (Inr u, s2) \<Rightarrow>
                            (case track_api_usage s2 of
                               (Inl e, s3) \<Rightarrow> (Inl e, s3)
                             | (Inr u', s3) \<Rightarrow>
                                 (case verify_niche_from_cached_videos info videos (ai_analyzer s3) of
                                    ((is_match, explanation, category), ai') \<Rightarrow>
                                      (let s4 = s3\<lparr>ai_analyzer := ai'\<rparr> in
                                       if \<not> is_match then (Inr False, s4)
                                       else
                                         (let influencer =
                                            \<lparr>inf_name = ci_title info, inf_sex = [],
                                             inf_handle = ci_handle info, inf_platform = ''YT'',
                                             inf_follower_count = ci_subscriber_count info,
                                             inf_contact = [],
                                             inf_engagement = calculate_engagement_from_cached_videos videos,
                                             inf_niche = category,
                                             inf_notes = ''Optimized finder: '' @ explanation,
                                             inf_status = ''Found''\<rparr> in
                                          (Inr True,
                                           s4\<lparr>csv_rows := csv_rows s4 @ [influencer],
                                              discovered_channels :=
                                                insert (ci_channel_id info) (discovered_channels s4)\<rparr>))))))))))"

text \<open>\<open>except Exception\<close>: the error is logged and the channel rejected.\<close>

definition process_channel_optimized :: "remote \<Rightarrow> finder \<Rightarrow> channel_info \<Rightarrow> (py_exn + bool) \<times> finder" where
  "process_channel_optimized R s info =
     (case process_channel_body R s info of
        (Inl e, s') \<Rightarrow> (Inr False, s')
      | (Inr accepted, s') \<Rightarrow> (Inr accepted, s'))"

subsection \<open>The credential pool over a run\<close>

text \<open>
  The two operations that touch the pool, and a run of them from a state: as in the
  program, the first exception ends the run, and the state it leaves is kept.
\<close>

datatype pool_op = RecordUsage | Rotate

fun apply_pool_op :: "pool_op \<Rightarrow> finder \<Rightarrow> (py_exn + unit) \<times> finder" where
  "apply_pool_op RecordUsage s = track_api_usage s"
| "apply_pool_op Rotate s = switch_to_next_api_key s"

fun run_pool_ops :: "pool_op list \<Rightarrow> finder \<Rightarrow> (py_exn + unit) \<times> finder" where
  "run_pool_ops [] s = (Inr (), s)"
| "run_pool_ops (op # ops) s =
     (case apply_pool_op op s of
        (Inl e, s') \<Rightarrow> (Inl e, s')
      | (Inr u, s') \<Rightarrow> run_pool_ops ops s')"

section \<open>whisper_api_server.py: the transcription queue and its results store\<close>

record TranscriptionRequest =
  rq_request_id :: string
  rq_video_id :: string
  rq_max_duration_minutes :: nat
  rq_timestamp :: real

record TranscriptionResult =
  rs_request_id :: string
  rs_video_id :: string
  rs_success :: bool
  rs_transcript :: "string option"
  rs_error :: "string option"
  rs_processing_time :: real

record stats =
  total_requests :: nat
  completed :: nat
  failed :: nat
  queue_size :: nat

text \<open>
  The server: the FIFO queue (its head is the next request), the results dictionary in
  insertion order, as a Python \<open>dict\<close> keeps it, and the counters.
\<close>

record WhisperAPIServer =
  max_queue_size :: nat
  request_queue :: "TranscriptionRequest list"
  results :: "(string \<times> TranscriptionResult) list"
  processing_stats :: stats

text \<open>\<open>d[k] = v\<close> keeps the place of a key that is there and appends a new one; \<open>del d[k]\<close>.\<close>

fun dict_set :: "('k \<times> 'v) list \<Rightarrow> 'k \<Rightarrow> 'v \<Rightarrow> ('k \<times> 'v) list" where
  "dict_set [] k v = [(k, v)]"
| "dict_set ((k', v') # d) k v = (if k' = k then (k, v) # d else (k', v') # dict_set d k v)"

definition dict_del :: "('k \<times> 'v) list \<Rightarrow> 'k \<Rightarrow> ('k \<times> 'v) list" where
  "dict_del d k = filter (\<lambda>(k', v'). k' \<noteq> k) d"

definition dict_keys :: "('k \<times> 'v) list \<Rightarrow> 'k list" where
  "dict_keys d = map fst d"

text \<open>JSON bodies as the handlers build them: the fields in order.\<close>

datatype json = JStr string | JNat nat | JReal real

type_synonym response = "(string \<times> json) list \<times> nat"

text \<open>\<open>GET /result/<request_id>\<close>.\<close>

definition get_result :: "WhisperAPIServer \<Rightarrow> string \<Rightarrow> response" where
  "get_result s request_id =
     (case map_of (results s) request_id of
        None \<Rightarrow>
          ([(''status'', JStr ''processing''),
            (''queue_size'', JNat (length (request_queue s)))], 200)
      | Some result \<Rightarrow>
          ([(''request_id'', JStr (rs_request_id result)),
            (''video_id'', JStr (rs_video_id result)),
            (''status'', JStr (if rs_success result then ''completed'' else ''failed'')),
            (''processing_time'', JReal (rs_processing_time result))] @
           (if rs_success result
            then [(''transcript'', JStr (case rs_transcript result of None \<Rightarrow> [] | Some t \<Rightarrow> t))]
            else [(''error'', JStr (case rs_error result of None \<Rightarrow> [] | Some e \<Rightarrow> e))]), 200))"

text \<open>
  Storing a result: \<open>self.results[req.request_id] = result\<close>, then, when more than 100
  results are stored, \<open>sorted(self.results.keys())[:50]\<close> are deleted.
\<close>

definition store_result ::
  "(string \<times> TranscriptionResult) list \<Rightarrow> TranscriptionResult \<Rightarrow> (string \<times> TranscriptionResult) list" where
  "store_result d result =
     (let d1 = dict_set d (rs_request_id result) result in
      if length d1 > 100 then
        (let oldest_keys = take 50 (sort (dict_keys d1)) in
         foldl dict_del d1 oldest_keys)
      else d1)"

text \<open>
  One turn of the worker loop of \<open>_process_queue\<close>, given the transcriber (the
  transcript, \<open>None\<close>, or an exception) and the time the transcription took. An empty
  queue is left as it is; an exception of the transcriber is logged and the request is
  gone without a result.
\<close>

definition process_queue_step ::
  "(string \<Rightarrow> nat \<Rightarrow> py_exn + string option) \<Rightarrow> real \<Rightarrow> WhisperAPIServer \<Rightarrow> WhisperAPIServer" where
  "process_queue_step transcribe processing_time s =
     (case request_queue s of
        [] \<Rightarrow> s
      | req # rest \<Rightarrow>
          (let s1 = s\<lparr>request_queue := rest,
                      processing_stats := (processing_stats s)\<lparr>queue_size := length rest\<rparr>\<rparr> in
           case transcribe (rq_video_id req) (rq_max_duration_minutes req) of
             Inl e \<Rightarrow> s1
           | Inr transcript \<Rightarrow>
               if transcript \<noteq> None \<and> transcript \<noteq> Some [] then
                 s1\<lparr>processing_stats := (processing_stats s1)
                       \<lparr>completed := completed (processing_stats s1) + 1\<rparr>,
                    results := store_result (results s1)
                      \<lparr>rs_request_id = rq_request_id req, rs_video_id = rq_video_id req,
                       rs_success = True, rs_transcript = transcript, rs_error = None,
                       rs_processing_time = processing_time\<rparr>\<rparr>
               else
                 s1\<lparr>processing_stats := (processing_stats s1)
                       \<lparr>failed := failed (processing_stats s1) + 1\<rparr>,
                    results := store_result (results s1)
                      \<lparr>rs_request_id = rq_request_id req, rs_video_id = rq_video_id req,
                       rs_success = False, rs_transcript = None,
                       rs_error = Some ''Transcription failed'',
                       rs_processing_time = processing_time\<rparr>\<rparr>))"

section \<open>Predicates and example inputs of the theorems\<close>

text \<open>A pool is valid when its index is in range and every key has its usage counter.\<close>

definition pool_valid :: "finder \<Rightarrow> bool" where
  "pool_valid s = (current_key_index s < length (api_keys s) \<and>
       (\<forall>i. i < length (api_keys s) \<longrightarrow> api_calls_per_key s i \<noteq> None))"

text \<open>
  A search result is in the registry when the handle read from its channel title
  (stripped, without leading \<open>@\<close>, lower-cased) is a registered handle, or when its
  channel id is a registered id.
\<close>

definition search_result_in_registry :: "finder \<Rightarrow> search_item \<Rightarrow> bool" where
  "search_result_in_registry s item =
     (let h = lower (lstrip_char CHR ''@''
                (strip (case si_channelTitle item of None \<Rightarrow> [] | Some t \<Rightarrow> t)));
          c = strip (si_channelId item) in
      (h \<noteq> [] \<and> h \<in> discovered_handles s) \<or> (c \<noteq> [] \<and> c \<in> discovered_channel_ids s))"

text \<open>
  The details of a channel are in the registry by handle when the handle they resolve
  to (stripped, without leading \<open>@\<close>, lower-cased) is a registered handle.
\<close>

definition handle_in_registry :: "finder \<Rightarrow> channel_info \<Rightarrow> bool" where
  "handle_in_registry s info =
     (let h = lower (lstrip_char CHR ''@'' (strip (ci_handle info))) in
      h \<noteq> [] \<and> h \<in> discovered_handles s)"

definition id_in_registry :: "finder \<Rightarrow> string \<Rightarrow> bool" where
  "id_in_registry s channel_id =
     (strip channel_id \<noteq> [] \<and> strip channel_id \<in> discovered_channel_ids s)"

text \<open>What a step leaves alone: the registry, the classifier, the accepted channels.\<close>

definition same_registry :: "finder \<Rightarrow> finder \<Rightarrow> bool" where
  "same_registry s s' =
     (discovered_handles s' = discovered_handles s \<and>
      discovered_channel_ids s' = discovered_channel_ids s \<and>
      discovered_channels s' = discovered_channels s \<and>
      ai_analyzer s' = ai_analyzer s)"

text \<open>
  What a search may do when it skips the registered ids: it leaves the registry and the
  classifier alone, it sends no \<open>channels().list\<close> call for a registered id, and it
  returns no channel with a registered id or a registered handle.
\<close>

definition skips_registered :: "finder \<Rightarrow> (py_exn + channel_info list) \<times> finder \<Rightarrow> bool" where
  "skips_registered s out =
     (same_registry s (snd out) \<and>
      (\<exists>new. api_log (snd out) = api_log s @ new \<and>
         (\<forall>c \<in> set new. \<forall>channel_id. snd c = ChannelsList channel_id \<longrightarrow>
            \<not> id_in_registry s channel_id)) \<and>
      (case fst out of
         Inl e \<Rightarrow> True
       | Inr found \<Rightarrow>
           \<forall>info \<in> set found. \<not> id_in_registry s (ci_channel_id info) \<and>
                                \<not> handle_in_registry s info))"

text \<open>A classifier without providers, and a finder as the constructor builds it.\<close>

definition example_ai :: AIAnalyzer where
  "example_ai = \<lparr>groq_client = None, openai_client = None, ai_events = []\<rparr>"

definition example_pool :: "string list \<Rightarrow> nat \<Rightarrow> finder" where
  "example_pool keys i =
     \<lparr>api_keys = keys, current_key_index = i,
      current_analyzer = new_analyzer (keys ! i),
      ai_analyzer = example_ai,
      api_calls_per_key = (\<lambda>j. if j < length keys then Some 0 else None),
      min_subscribers = 10000, max_subscribers = 100000,
      discovered_channels = {}, discovered_handles = {}, discovered_channel_ids = {},
      csv_rows = [], api_log = []\<rparr>"


definition example_info :: channel_info where
  "example_info =
     \<lparr>ci_channel_id = ''UC123'', ci_title = ''Coach'', ci_handle = ''@coach'',
      ci_description = ''Dating advice'', ci_subscriber_count = 20000,
      ci_video_count = 100, ci_view_count = 900000\<rparr>"


text \<open>
  A transcription server with one stored result and one request waiting in the queue.
\<close>

definition example_server :: WhisperAPIServer where
  "example_server =
     \<lparr>max_queue_size = 50,
      request_queue =
        [\<lparr>rq_request_id = ''2b1c0000-0000-4000-8000-000000000002'', rq_video_id = ''vid2'',
          rq_max_duration_minutes = 120, rq_timestamp = 0\<rparr>],
      results =
        [(''1a0b0000-0000-4000-8000-000000000001'',
          \<lparr>rs_request_id = ''1a0b0000-0000-4000-8000-000000000001'', rs_video_id = ''vid1'',
           rs_success = True, rs_transcript = Some ''hello'', rs_error = None,
           rs_processing_time = 3\<rparr>)],
      processing_stats = \<lparr>total_requests = 2, completed = 1, failed = 0, queue_size = 1\<rparr>\<rparr>"



definition empty_remote :: remote where
  "empty_remote =
     \<lparr>search_execute = (\<lambda>calls k c. Inr []),
      videos_execute = (\<lambda>calls k c. Inr []),
      channels_execute = (\<lambda>calls k c. Inr [])\<rparr>"


definition low_video :: video_data where
  "low_video =
     \<lparr>vd_videoId = ''v1'',
      vd_snippet = \<lparr>sn_title = ''First date tips'', sn_description = None\<rparr>,
      vd_statistics = \<lparr>viewCount = Num 500, commentCount = Num 3\<rparr>,
      vd_duration_seconds = 90\<rparr>"

definition low_views_remote :: remote where
  "low_views_remote =
     \<lparr>search_execute =
        (\<lambda>calls k c. Inr [\<lparr>si_videoId = ''v1'', si_channelId = ''UC123'',
                             si_channelTitle = Some ''Coach''\<rparr>]),
      videos_execute =
        (\<lambda>calls k c. Inr [\<lparr>vr_id = ''v1'',
                             vr_snippet = \<lparr>sn_title = ''First date tips'', sn_description = None\<rparr>,
                             vr_statistics = Some \<lparr>viewCount = Num 500, commentCount = Num 3\<rparr>,
                             vr_duration = ''PT1M30S''\<rparr>]),
      channels_execute = (\<lambda>calls k c. Inr [])\<rparr>"

text \<open>
  A finder whose registry holds the handle \<open>existingcreator\<close> and the channel id
  \<open>UCknown\<close>; a remote API whose keyword search returns one given result and whose
  channel details are those of a creator with the custom URL \<open>existingcreator\<close>.
\<close>

definition registry_finder :: finder where
  "registry_finder =
     (example_pool [''key-a'', ''key-b''] 0)
       \<lparr>discovered_handles := {''existingcreator''}, discovered_channel_ids := {''UCknown''}\<rparr>"

definition creator_item :: "string \<Rightarrow> string \<Rightarrow> search_item" where
  "creator_item channel_id channel_title =
     \<lparr>si_videoId = ''v1'', si_channelId = channel_id, si_channelTitle = Some channel_title\<rparr>"

definition creator_remote :: "search_item \<Rightarrow> remote" where
  "creator_remote item =
     \<lparr>search_execute = (\<lambda>calls k c. Inr [item]),
      videos_execute = (\<lambda>calls k c. Inr []),
      channels_execute =
        (\<lambda>calls k c. Inr [\<lparr>cr_title = ''Existing Creator'',
                             cr_customUrl = Some ''existingcreator'',
                             cr_description = None,
                             cr_subscriberCount = Num 50000,
                             cr_videoCount = Num 120,
                             cr_viewCount = Num 900000\<rparr>])\<rparr>"

definition creator_info :: channel_info where
  "creator_info =
     \<lparr>ci_channel_id = ''UCexisting'', ci_title = ''Existing Creator'',
      ci_handle = ''@existingcreator'', ci_description = [],
      ci_subscriber_count = 50000, ci_video_count = 120, ci_view_count = 900000\<rparr>"

definition keyword_search :: api_call where
  "keyword_search =
     SearchList ''first date tips'' None ''relevance'' 50 (Some ''2024-01-01T00:00:00Z'')"

text \<open>
  A results store that is full: 100 results with the request ids
  \<open>a0000000-...\<close> to \<open>a9900000-...\<close>, stored in this order, and in the queue one request
  whose id \<open>0f000000-...\<close> sorts before all of them.
\<close>

definition decimal_digit :: "nat \<Rightarrow> char" where
  "decimal_digit d = char_of (48 + d)"

definition stored_id :: "nat \<Rightarrow> string" where
  "stored_id i =
     CHR ''a'' # decimal_digit (i div 10) # decimal_digit (i mod 10) #
       ''00000-0000-4000-8000-000000000000''"

definition stored_result :: "string \<Rightarrow> TranscriptionResult" where
  "stored_result request_id =
     \<lparr>rs_request_id = request_id, rs_video_id = ''vid'', rs_success = True,
      rs_transcript = Some ''text'', rs_error = None, rs_processing_time = 1\<rparr>"

definition stored_results :: "nat \<Rightarrow> nat \<Rightarrow> (string \<times> TranscriptionResult) list" where
  "stored_results i j = map (\<lambda>n. (stored_id n, stored_result (stored_id n))) [i..<j]"

definition newest_id :: string where
  "newest_id = ''0f000000-0000-4000-8000-000000000000''"

definition full_server :: WhisperAPIServer where
  "full_server =
     \<lparr>max_queue_size = 50,
      request_queue =
        [\<lparr>rq_request_id = newest_id, rq_video_id = ''vid-new'',
          rq_max_duration_minutes = 120, rq_timestamp = 0\<rparr>],
      results = stored_results 0 100,
      processing_stats = \<lparr>total_requests = 101, completed = 100, failed = 0, queue_size = 1\<rparr>\<rparr>"

section \<open>The classifier never raises\<close>

lemma openai_fallback_returns: "\<exists>r. fst (openai_fallback a prompt t) = Inr r"
  by (auto simp: openai_fallback_def call_openai_def Let_def
      split: option.splits sum.splits prod.splits)

lemma openai_fallback_fails:
  "provider_fails (openai_client a) prompt \<Longrightarrow>
     fst (openai_fallback a prompt t) = Inr (unavailable t)"
  by (auto simp: openai_fallback_def call_openai_def provider_fails_def Let_def
      split: option.splits sum.splits prod.splits)

lemma call_groq_clients:
  "call_groq a prompt = (r, a') \<Longrightarrow>
     openai_client a' = openai_client a \<and> groq_client a' = groq_client a"
  by (auto simp: call_groq_def Let_def split: option.splits sum.splits)

text \<open>
  C6. \<open>analyze_content\<close> (through \<open>_call_ai_api\<close>) returns a string for every analyzer and
  every prompt: it never leaves with an exception. When the Groq call fails and the
  OpenAI call fails as well (a client that is not configured, a call that raises, or an
  empty answer), the string is the fixed message
  \<open>Unable to generate content analysis - AI services unavailable.\<close>
\<close>

theorem analyze_content_never_raises:
  "(\<exists>r. fst (analyze_content a prompt) = Inr r) \<and>
   (provider_fails (groq_client a) prompt \<and> provider_fails (openai_client a) prompt \<longrightarrow>
      fst (analyze_content a prompt) =
        Inr ''Unable to generate content analysis - AI services unavailable.'')"
proof
  show "\<exists>r. fst (analyze_content a prompt) = Inr r"
    unfolding analyze_content_def call_ai_api_def Let_def
    by (simp add: openai_fallback_returns split: prod.splits sum.splits option.splits)
next
  have u: "unavailable ''content analysis'' =
             ''Unable to generate content analysis - AI services unavailable.''"
    by (simp add: unavailable_def)
  define a0 where
    "a0 = a\<lparr>ai_events := ai_events a @ [AnalysisRequest ''content analysis'' prompt]\<rparr>"
  have g0: "groq_client a0 = groq_client a" and o0: "openai_client a0 = openai_client a"
    by (simp_all add: a0_def)
  show "provider_fails (groq_client a) prompt \<and> provider_fails (openai_client a) prompt \<longrightarrow>
      fst (analyze_content a prompt) =
        Inr ''Unable to generate content analysis - AI services unavailable.''"
  proof
    assume h: "provider_fails (groq_client a) prompt \<and> provider_fails (openai_client a) prompt"
    show "fst (analyze_content a prompt) =
            Inr ''Unable to generate content analysis - AI services unavailable.''"
    proof (cases "groq_client a")
      case None
      then show ?thesis
        using h o0 g0 openai_fallback_fails[of a0 prompt "''content analysis''"]
        by (simp add: analyze_content_def call_ai_api_def u a0_def[symmetric])
    next
      case (Some g)
      obtain r a' where c: "call_groq a0 prompt = (r, a')"
        by (cases "call_groq a0 prompt")
      have cl: "openai_client a' = openai_client a"
        using call_groq_clients[OF c] o0 by simp
      have f: "fst (openai_fallback a' prompt ''content analysis'') =
                 Inr (unavailable ''content analysis'')"
        using h cl openai_fallback_fails[of a' prompt] by simp
      have r: "r = Inr None \<or> r = Inr (Some [])"
        using c h Some g0
        by (auto simp: call_groq_def provider_fails_def Let_def split: sum.splits)
      then show ?thesis
        using c f Some g0
        by (auto simp: analyze_content_def call_ai_api_def u a0_def[symmetric])
    qed
  qed
qed

theorem analyze_content_never_raises_witness:
  "provider_fails (Some (\<lambda>p. Inl (OtherError ''rate limited''))) ''Is this a match?'' \<and>
   provider_fails (Some (\<lambda>p. Inl (OtherError ''timeout''))) ''Is this a match?'' \<and>
   fst (analyze_content
          \<lparr>groq_client = Some (\<lambda>p. Inl (OtherError ''rate limited'')),
           openai_client = Some (\<lambda>p. Inl (OtherError ''timeout'')),
           ai_events = []\<rparr> ''Is this a match?'') =
     Inr ''Unable to generate content analysis - AI services unavailable.''"
  using analyze_content_never_raises
          [of "\<lparr>groq_client = Some (\<lambda>p. Inl (OtherError ''rate limited'')),
                openai_client = Some (\<lambda>p. Inl (OtherError ''timeout'')),
                ai_events = []\<rparr>" "''Is this a match?''"]
  by (simp add: provider_fails_def)

section \<open>The credential pool\<close>

lemma new_finder_example:
  "keys \<noteq> [] \<Longrightarrow> new_finder keys example_ai {} {} = Inr (example_pool keys 0)"
  by (simp add: new_finder_def load_api_keys_def initialize_current_analyzer_def example_pool_def)

lemma new_finder_state:
  "new_finder env_keys ai handles ids = Inr s \<Longrightarrow>
     api_keys s = env_keys \<and> env_keys \<noteq> [] \<and> current_key_index s = 0 \<and>
     (\<forall>i. i < length env_keys \<longrightarrow> api_calls_per_key s i \<noteq> None)"
  by (auto simp: new_finder_def load_api_keys_def initialize_current_analyzer_def
      split: if_splits)

lemma switch_succeeds:
  "current_key_index s + 1 < length (api_keys s) \<Longrightarrow>
     switch_to_next_api_key s =
       (Inr (), s\<lparr>current_key_index := current_key_index s + 1,
                  current_analyzer := new_analyzer (api_keys s ! (current_key_index s + 1))\<rparr>)"
  by (simp add: switch_to_next_api_key_def initialize_current_analyzer_def Let_def)

lemma switch_raises:
  "length (api_keys s) \<le> current_key_index s + 1 \<Longrightarrow>
     switch_to_next_api_key s =
       (Inl all_keys_exhausted, s\<lparr>current_key_index := current_key_index s + 1\<rparr>)"
  by (simp add: switch_to_next_api_key_def Let_def)

lemma switch_advances:
  "current_key_index (snd (switch_to_next_api_key s)) = current_key_index s + 1"
  by (cases "current_key_index s + 1 < length (api_keys s)")
     (simp_all add: switch_succeeds switch_raises)

lemma run_pool_ops_append:
  "run_pool_ops (xs @ ys) s =
     (case run_pool_ops xs s of
        (Inl e, s') \<Rightarrow> (Inl e, s')
      | (Inr u, s') \<Rightarrow> run_pool_ops ys s')"
  by (induction xs arbitrary: s) (auto split: prod.splits sum.splits)

lemma rotations_succeed:
  "current_key_index s + k < length (api_keys s) \<Longrightarrow>
     \<exists>s'. run_pool_ops (replicate k Rotate) s = (Inr (), s') \<and>
          current_key_index s' = current_key_index s + k \<and> api_keys s' = api_keys s"
proof (induction k arbitrary: s)
  case 0
  then show ?case by simp
next
  case (Suc k)
  let ?s1 = "s\<lparr>current_key_index := current_key_index s + 1,
                current_analyzer := new_analyzer (api_keys s ! (current_key_index s + 1))\<rparr>"
  have sw: "switch_to_next_api_key s = (Inr (), ?s1)"
    using Suc.prems by (intro switch_succeeds) simp
  have "current_key_index ?s1 + k < length (api_keys ?s1)" using Suc.prems by simp
  from Suc.IH[OF this] obtain s' where
    "run_pool_ops (replicate k Rotate) ?s1 = (Inr (), s')"
    "current_key_index s' = current_key_index ?s1 + k" "api_keys s' = api_keys ?s1"
    by blast
  then show ?case using sw by simp
qed

text \<open>
  C2. For a finder built from \<open>n \<ge> 2\<close> keys, the first \<open>n - 1\<close> calls of
  \<open>switch_to_next_api_key\<close> succeed, and after \<open>k\<close> of them the active index is \<open>k\<close>; the
  \<open>n\<close>-th call raises \<open>QuotaExceededError\<close>; and every call, from any state, leaves the
  index one above where it was, so the rotation never returns to an earlier key.
\<close>

theorem rotation_forward_only:
  assumes "new_finder env_keys ai handles ids = Inr s" and "2 \<le> length env_keys"
  shows "(\<forall>k. k < length env_keys \<longrightarrow>
            (\<exists>s'. run_pool_ops (replicate k Rotate) s = (Inr (), s') \<and>
                  current_key_index s' = k)) \<and>
         (\<exists>s'. run_pool_ops (replicate (length env_keys) Rotate) s = (Inl all_keys_exhausted, s')) \<and>
         (\<forall>t. current_key_index (snd (switch_to_next_api_key t)) = current_key_index t + 1)"
proof -
  from new_finder_state[OF assms(1)]
  have st: "api_keys s = env_keys" "current_key_index s = 0" by simp_all
  have a: "\<exists>s'. run_pool_ops (replicate k Rotate) s = (Inr (), s') \<and> current_key_index s' = k"
    if "k < length env_keys" for k
    using rotations_succeed[of s k] that st by auto
  obtain n where n: "length env_keys = Suc n" using assms(2) by (cases "length env_keys") auto
  from a[of n] n obtain s1 where
    s1: "run_pool_ops (replicate n Rotate) s = (Inr (), s1)" "current_key_index s1 = n"
    by auto
  have "api_keys s1 = env_keys" using rotations_succeed[of s n] s1 st n by auto
  then have "switch_to_next_api_key s1 =
               (Inl all_keys_exhausted, s1\<lparr>current_key_index := current_key_index s1 + 1\<rparr>)"
    using s1 n by (intro switch_raises) simp
  then have b: "\<exists>s'. run_pool_ops (replicate (length env_keys) Rotate) s = (Inl all_keys_exhausted, s')"
    using s1 n run_pool_ops_append[of "replicate n Rotate" "[Rotate]" s]
    by (simp add: replicate_append_same)
  show ?thesis using a b switch_advances by blast
qed


theorem rotation_forward_only_witness:
  "new_finder [''key-a'', ''key-b'', ''key-c''] example_ai {} {} =
     Inr (example_pool [''key-a'', ''key-b'', ''key-c''] 0) \<and>
   (2::nat) \<le> length [''key-a'', ''key-b'', ''key-c''] \<and>
   run_pool_ops [Rotate, Rotate] (example_pool [''key-a'', ''key-b'', ''key-c''] 0) =
     (Inr (), example_pool [''key-a'', ''key-b'', ''key-c''] 2) \<and>
   run_pool_ops [Rotate, Rotate, Rotate] (example_pool [''key-a'', ''key-b'', ''key-c''] 0) =
     (Inl all_keys_exhausted,
      (example_pool [''key-a'', ''key-b'', ''key-c''] 2)\<lparr>current_key_index := 3\<rparr>)"
proof -
  have n: "new_finder [''key-a'', ''key-b'', ''key-c''] example_ai {} {} =
             Inr (example_pool [''key-a'', ''key-b'', ''key-c''] 0)"
    by (rule new_finder_example) simp
  have l: "(2::nat) \<le> length [''key-a'', ''key-b'', ''key-c'']" by simp
  note t = rotation_forward_only[OF n l]
  have r2: "run_pool_ops [Rotate, Rotate] (example_pool [''key-a'', ''key-b'', ''key-c''] 0) =
              (Inr (), example_pool [''key-a'', ''key-b'', ''key-c''] 2)"
    by (simp add: example_pool_def switch_to_next_api_key_def initialize_current_analyzer_def Let_def)
  have r3: "run_pool_ops [Rotate, Rotate, Rotate] (example_pool [''key-a'', ''key-b'', ''key-c''] 0) =
     (Inl all_keys_exhausted,
      (example_pool [''key-a'', ''key-b'', ''key-c''] 2)\<lparr>current_key_index := 3\<rparr>)"
    by (simp add: example_pool_def switch_to_next_api_key_def initialize_current_analyzer_def Let_def)
  show ?thesis using n l r2 r3 t by simp
qed

lemma apply_pool_op_valid:
  assumes "pool_valid s" "apply_pool_op op s = (r, s')"
  shows "api_keys s' = api_keys s \<and>
         (case r of Inr u \<Rightarrow> pool_valid s'
          | Inl e \<Rightarrow> e = all_keys_exhausted \<and> current_key_index s' = length (api_keys s'))"
proof (cases op)
  case RecordUsage
  then show ?thesis using assms
    by (auto simp: pool_valid_def track_api_usage_def split: option.splits)
next
  case Rotate
  show ?thesis
  proof (cases "current_key_index s + 1 < length (api_keys s)")
    case True
    then show ?thesis using assms Rotate by (auto simp: switch_succeeds pool_valid_def)
  next
    case False
    then show ?thesis using assms Rotate by (auto simp: switch_raises pool_valid_def)
  qed
qed

lemma run_pool_ops_valid:
  "pool_valid s \<Longrightarrow> run_pool_ops ops s = (r, s') \<Longrightarrow>
     api_keys s' = api_keys s \<and>
     (case r of Inr u \<Rightarrow> pool_valid s'
      | Inl e \<Rightarrow> e = all_keys_exhausted \<and> current_key_index s' = length (api_keys s'))"
proof (induction ops arbitrary: s)
  case Nil
  then show ?case by auto
next
  case (Cons op ops)
  obtain r1 s1 where o: "apply_pool_op op s = (r1, s1)" by (cases "apply_pool_op op s")
  note v = apply_pool_op_valid[OF Cons.prems(1) o]
  show ?case
  proof (cases r1)
    case (Inl e)
    then show ?thesis using Cons.prems(2) o v by auto
  next
    case (Inr u)
    then have "pool_valid s1" using v by simp
    moreover have "run_pool_ops ops s1 = (r, s')" using Cons.prems(2) o Inr by simp
    ultimately show ?thesis using Cons.IH[of s1] v by auto
  qed
qed

text \<open>
  C5, as the program has it. From the state the constructor builds, after any run of
  usage counts and rotations that did not raise, the active index is below the number
  of keys. The rotation that raises has advanced the index before it tests it: it
  leaves the index equal to the number of keys, which is outside the pool.
\<close>

theorem pool_index_in_range:
  assumes "new_finder env_keys ai handles ids = Inr s0" and "run_pool_ops ops s0 = (r, s)"
  shows "api_keys s = env_keys \<and> env_keys \<noteq> [] \<and>
         (case r of
            Inr u \<Rightarrow> current_key_index s < length (api_keys s)
          | Inl e \<Rightarrow> e = all_keys_exhausted \<and> current_key_index s = length (api_keys s))"
proof -
  have "pool_valid s0" using new_finder_state[OF assms(1)] by (simp add: pool_valid_def)
  from run_pool_ops_valid[OF this assms(2)] new_finder_state[OF assms(1)]
  show ?thesis by (auto simp: pool_valid_def split: sum.splits)
qed


theorem pool_index_in_range_witness:
  "new_finder [''key-a'', ''key-b''] example_ai {} {} = Inr (example_pool [''key-a'', ''key-b''] 0) \<and>
   run_pool_ops [Rotate] (example_pool [''key-a'', ''key-b''] 0) =
     (Inr (), example_pool [''key-a'', ''key-b''] 1) \<and>
   current_key_index (example_pool [''key-a'', ''key-b''] 1) <
     length (api_keys (example_pool [''key-a'', ''key-b''] 1)) \<and>
   run_pool_ops [Rotate, Rotate] (example_pool [''key-a'', ''key-b''] 0) =
     (Inl all_keys_exhausted, (example_pool [''key-a'', ''key-b''] 1)\<lparr>current_key_index := 2\<rparr>) \<and>
   current_key_index ((example_pool [''key-a'', ''key-b''] 1)\<lparr>current_key_index := 2\<rparr>) =
     length (api_keys ((example_pool [''key-a'', ''key-b''] 1)\<lparr>current_key_index := 2\<rparr>))"
proof -
  have n: "new_finder [''key-a'', ''key-b''] example_ai {} {} = Inr (example_pool [''key-a'', ''key-b''] 0)"
    by (rule new_finder_example) simp
  have r1: "run_pool_ops [Rotate] (example_pool [''key-a'', ''key-b''] 0) =
     (Inr (), example_pool [''key-a'', ''key-b''] 1)"
    by (simp add: example_pool_def switch_to_next_api_key_def initialize_current_analyzer_def Let_def)
  have r2: "run_pool_ops [Rotate, Rotate] (example_pool [''key-a'', ''key-b''] 0) =
     (Inl all_keys_exhausted, (example_pool [''key-a'', ''key-b''] 1)\<lparr>current_key_index := 2\<rparr>)"
    by (simp add: example_pool_def switch_to_next_api_key_def initialize_current_analyzer_def Let_def)
  have i1: "current_key_index (example_pool [''key-a'', ''key-b''] 1) <
     length (api_keys (example_pool [''key-a'', ''key-b''] 1))"
    using pool_index_in_range[OF n r1] by auto
  have i2: "current_key_index ((example_pool [''key-a'', ''key-b''] 1)\<lparr>current_key_index := 2\<rparr>) =
     length (api_keys ((example_pool [''key-a'', ''key-b''] 1)\<lparr>current_key_index := 2\<rparr>))"
    using pool_index_in_range[OF n r2] by auto
  show ?thesis by (intro conjI n r1 i1 r2 i2)
qed

text \<open>
  With a single key, one usage count and one rotation attempt: the attempt raises and
  the index it leaves is 1, the number of keys.
\<close>

theorem pool_index_counterexample:
  "new_finder [''key-a''] example_ai {} {} = Inr (example_pool [''key-a''] 0) \<and>
   run_pool_ops [RecordUsage, Rotate] (example_pool [''key-a''] 0) =
     (Inl all_keys_exhausted,
      (example_pool [''key-a''] 0)
        \<lparr>current_key_index := 1, api_calls_per_key := (\<lambda>j. if j < 1 then Some 1 else None)\<rparr>) \<and>
   \<not> current_key_index (snd (run_pool_ops [RecordUsage, Rotate] (example_pool [''key-a''] 0)))
       < length (api_keys (snd (run_pool_ops [RecordUsage, Rotate] (example_pool [''key-a''] 0))))"
  by (auto simp: new_finder_example example_pool_def track_api_usage_def
      switch_to_next_api_key_def Let_def fun_eq_iff)

section \<open>Parsing the classifier's answer\<close>












section \<open>Looking up a transcription result\<close>

text \<open>
  C10. For a request id that is not a key of the results store (never submitted, still
  queued, being processed, or evicted), \<open>GET /result/<request_id>\<close> answers with code 200
  and the body \<open>status: processing\<close> with the queue size, whatever the id is: the status
  is not \<open>queued\<close>, the body has no \<open>error\<close> field, and the answer is the same for every
  absent id.
\<close>

theorem get_result_absent_is_processing:
  assumes "request_id \<notin> set (dict_keys (results s))"
  shows "get_result s request_id =
           ([(''status'', JStr ''processing''),
             (''queue_size'', JNat (length (request_queue s)))], 200) \<and>
         map_of (fst (get_result s request_id)) ''status'' \<noteq> Some (JStr ''queued'') \<and>
         map_of (fst (get_result s request_id)) ''error'' = None"
proof -
  have "map_of (results s) request_id = None"
    using assms by (simp add: dict_keys_def map_of_eq_None_iff)
  then show ?thesis by (simp add: get_result_def)
qed

theorem get_result_absent_is_processing_witness:
  "''never-submitted'' \<notin> set (dict_keys (results example_server)) \<and>
   ''2b1c0000-0000-4000-8000-000000000002'' \<notin> set (dict_keys (results example_server)) \<and>
   get_result example_server ''never-submitted'' =
     ([(''status'', JStr ''processing''), (''queue_size'', JNat 1)], 200) \<and>
   get_result example_server ''2b1c0000-0000-4000-8000-000000000002'' =
     ([(''status'', JStr ''processing''), (''queue_size'', JNat 1)], 200)"
proof -
  have a: "''never-submitted'' \<notin> set (dict_keys (results example_server))"
    by (simp add: example_server_def dict_keys_def)
  have b: "''2b1c0000-0000-4000-8000-000000000002'' \<notin> set (dict_keys (results example_server))"
    by (simp add: example_server_def dict_keys_def)
  have q: "length (request_queue example_server) = 1"
    by (simp add: example_server_def)
  show ?thesis
    using a b get_result_absent_is_processing[OF a] get_result_absent_is_processing[OF b] q
    by simp
qed

section \<open>Fetching the videos of a channel\<close>

lemma parse_duration_example: "parse_duration ''PT1M30S'' = 90"
  by (simp add: parse_duration_def duration_group_def is_digit_def digits_value_def Let_def)

lemma fetch_low_views:
  "get_channel_videos_with_stats low_views_remote (new_analyzer ''key-a'') calls ''UC123'' 15 =
     (Inr [low_video],
      (new_analyzer ''key-a'')\<lparr>video_cache := [''v1'' \<mapsto> low_video]\<rparr>,
      calls @ [(''key-a'', SearchList [] (Some ''UC123'') ''date'' 15 None),
               (''key-a'', VideosList ''v1'')])"
  by (simp add: get_channel_videos_with_stats_def fetch_videos_body_def Let_def
      low_views_remote_def new_analyzer_def process_video_def cache_videos_def low_video_def
      parse_duration_example)

text \<open>
  C3, as the program has it. \<open>get_channel_videos_with_stats\<close> issues at most two calls,
  whatever the channel and the requested count. The first is always the search call of
  the channel bounded to the requested count. A second call follows exactly when the
  search returned at least one item, and it is one \<open>videos().list\<close> call for all
  returned ids joined by commas. When the search fails or returns no item, the search
  is the only call.
\<close>

theorem fetch_issues_at_most_two_calls:
  "snd (snd (get_channel_videos_with_stats R an calls channel_id max_results)) =
     calls @ (developerKey an, SearchList [] (Some channel_id) ''date'' max_results None) #
       (case search_execute R calls (developerKey an)
               (SearchList [] (Some channel_id) ''date'' max_results None) of
          Inl e \<Rightarrow> []
        | Inr items \<Rightarrow>
            if items = [] then []
            else [(developerKey an, VideosList (join '','' (map si_videoId items)))])"
  by (simp add: get_channel_videos_with_stats_def fetch_videos_body_def Let_def
      split: sum.splits)

theorem fetch_issues_at_most_two_calls_witness:
  "snd (snd (get_channel_videos_with_stats low_views_remote (new_analyzer ''key-a'') []
               ''UC123'' 15)) =
     [(''key-a'', SearchList [] (Some ''UC123'') ''date'' 15 None), (''key-a'', VideosList ''v1'')]"
  using fetch_issues_at_most_two_calls[of low_views_remote "new_analyzer ''key-a''" "[]" "''UC123''" 15]
  by (simp add: low_views_remote_def new_analyzer_def)

text \<open>
  A channel for which the search returns no item: the search is the only call, so the
  number of calls is one, not two.
\<close>

theorem fetch_calls_counterexample:
  "get_channel_videos_with_stats empty_remote (new_analyzer ''key-a'') [] ''UC123'' 10 =
     (Inr [], new_analyzer ''key-a'', [(''key-a'', SearchList [] (Some ''UC123'') ''date'' 10 None)]) \<and>
   length (snd (snd (get_channel_videos_with_stats empty_remote (new_analyzer ''key-a'') []
              ''UC123'' 10))) \<noteq> 2"
  by (simp add: get_channel_videos_with_stats_def fetch_videos_body_def Let_def
      empty_remote_def new_analyzer_def)




section \<open>The view filter comes before the classifier\<close>

lemma videos_with_min_views_filter:
  "videos_with_min_views m vs = Inr kept \<Longrightarrow>
     kept = filter (\<lambda>v. case py_int (viewCount (vd_statistics v)) of
                           Inl e \<Rightarrow> False | Inr views \<Rightarrow> views \<ge> m) vs"
  by (induction vs arbitrary: kept) (auto split: sum.splits if_splits)

text \<open>
  C4. When the videos fetched for a channel hold fewer than \<open>min_videos_with_min_views\<close>
  (8) videos whose view count is at least \<open>min_views_per_video\<close> (1000),
  \<open>process_channel_optimized\<close> rejects the channel and the classifier is left exactly as
  it was: its events record no analysis request and no provider request, so the number
  of classification calls for the channel is zero. Nothing is written to the CSV
  rows either.
\<close>

theorem low_views_rejected_before_classifier:
  assumes "get_channel_videos_with_stats R (current_analyzer s) (api_log s)
             (ci_channel_id info) 15 = (Inr videos, an, calls)"
    and "length (filter (\<lambda>v. case py_int (viewCount (vd_statistics v)) of
                               Inl e \<Rightarrow> False
                             | Inr views \<Rightarrow> views \<ge> min_views_per_video) videos)
           < min_videos_with_min_views"
  shows "fst (process_channel_optimized R s info) = Inr False \<and>
         ai_analyzer (snd (process_channel_optimized R s info)) = ai_analyzer s \<and>
         csv_rows (snd (process_channel_optimized R s info)) = csv_rows s"
proof (cases "videos_with_min_views min_views_per_video videos")
  case (Inl e)
  then show ?thesis using assms(1)
    by (simp add: process_channel_optimized_def process_channel_body_def Let_def)
next
  case (Inr kept)
  from videos_with_min_views_filter[OF this] assms(2)
  have "length kept < min_videos_with_min_views" by simp
  then show ?thesis using assms(1) Inr
    by (simp add: process_channel_optimized_def process_channel_body_def Let_def)
qed

theorem low_views_rejected_before_classifier_witness:
  "get_channel_videos_with_stats low_views_remote
     (current_analyzer (example_pool [''key-a'', ''key-b''] 0))
     (api_log (example_pool [''key-a'', ''key-b''] 0)) (ci_channel_id example_info) 15 =
     (Inr [low_video],
      (new_analyzer ''key-a'')\<lparr>video_cache := [''v1'' \<mapsto> low_video]\<rparr>,
      [(''key-a'', SearchList [] (Some ''UC123'') ''date'' 15 None),
       (''key-a'', VideosList ''v1'')]) \<and>
   length (filter (\<lambda>v. case py_int (viewCount (vd_statistics v)) of
                          Inl e \<Rightarrow> False
                        | Inr views \<Rightarrow> views \<ge> min_views_per_video) [low_video])
     < min_videos_with_min_views \<and>
   fst (process_channel_optimized low_views_remote (example_pool [''key-a'', ''key-b''] 0)
          example_info) = Inr False \<and>
   ai_events (ai_analyzer (snd (process_channel_optimized low_views_remote
          (example_pool [''key-a'', ''key-b''] 0) example_info))) = []"
proof -
  have f: "get_channel_videos_with_stats low_views_remote
     (current_analyzer (example_pool [''key-a'', ''key-b''] 0))
     (api_log (example_pool [''key-a'', ''key-b''] 0)) (ci_channel_id example_info) 15 =
     (Inr [low_video],
      (new_analyzer ''key-a'')\<lparr>video_cache := [''v1'' \<mapsto> low_video]\<rparr>,
      [(''key-a'', SearchList [] (Some ''UC123'') ''date'' 15 None),
       (''key-a'', VideosList ''v1'')])"
    using fetch_low_views[of "[]"] by (simp add: example_pool_def example_info_def)
  have l: "length (filter (\<lambda>v. case py_int (viewCount (vd_statistics v)) of
                          Inl e \<Rightarrow> False
                        | Inr views \<Rightarrow> views \<ge> min_views_per_video) [low_video])
     < min_videos_with_min_views"
    by (simp add: low_video_def min_views_per_video_def min_videos_with_min_views_def)
  have e: "ai_events (ai_analyzer (example_pool [''key-a'', ''key-b''] 0)) = []"
    by (simp add: example_pool_def example_ai_def)
  show ?thesis
    using f l e low_views_rejected_before_classifier[OF f l]
    by simp
qed

section \<open>Skipping the channels of the registry\<close>

lemma in_registry_is_discovered:
  "search_result_in_registry s item \<Longrightarrow> is_discovered s (fake_channel_info item) (Some item)"
  by (auto simp: search_result_in_registry_def is_discovered_def fake_channel_info_def Let_def)

lemma id_in_registry_is_discovered:
  "id_in_registry s (si_channelId item) \<Longrightarrow> is_discovered s (fake_channel_info item) (Some item)"
  by (auto simp: id_in_registry_def is_discovered_def fake_channel_info_def Let_def)

lemma handle_in_registry_is_discovered:
  "handle_in_registry s info \<Longrightarrow> is_discovered s info item"
  by (auto simp: handle_in_registry_def is_discovered_def Let_def)

lemma same_registry_refl: "same_registry s s"
  by (simp add: same_registry_def)

lemma same_registry_trans: "same_registry s s1 \<Longrightarrow> same_registry s1 s2 \<Longrightarrow> same_registry s s2"
  by (simp add: same_registry_def)

lemma same_registry_is_discovered:
  "same_registry s s' \<Longrightarrow> is_discovered s' info item = is_discovered s info item"
  by (simp add: same_registry_def is_discovered_def)

lemma same_registry_id: "same_registry s s' \<Longrightarrow> id_in_registry s' c = id_in_registry s c"
  by (simp add: same_registry_def id_in_registry_def)

lemma same_registry_handle:
  "same_registry s s' \<Longrightarrow> handle_in_registry s' info = handle_in_registry s info"
  by (simp add: same_registry_def handle_in_registry_def)

lemma track_api_usage_effect:
  "track_api_usage s = (r, s') \<Longrightarrow> same_registry s s' \<and> api_log s' = api_log s"
  by (auto simp: track_api_usage_def same_registry_def split: option.splits)

lemma get_channel_details_effect:
  assumes "get_channel_details R s c = (r, s')"
  shows "same_registry s s' \<and>
         (\<exists>new. api_log s' = api_log s @ new \<and> snd ` set new \<subseteq> {ChannelsList c}) \<and>
         (case r of None \<Rightarrow> True
          | Some info \<Rightarrow>
              ci_channel_id info = c \<and>
              api_log s' = api_log s @ [(developerKey (current_analyzer s), ChannelsList c)])"
proof -
  obtain r0 s0 where b: "channel_details_body R s c = (r0, s0)"
    by (cases "channel_details_body R s c")
  obtain r1 s1 where t: "track_api_usage s = (r1, s1)"
    by (cases "track_api_usage s")
  note e = track_api_usage_effect[OF t]
  have k: "r1 = Inr () \<Longrightarrow> developerKey (current_analyzer s1) = developerKey (current_analyzer s)"
    using t by (auto simp: track_api_usage_def split: option.splits)
  have "same_registry s s0 \<and>
        (\<exists>new. api_log s0 = api_log s @ new \<and> snd ` set new \<subseteq> {ChannelsList c}) \<and>
        (case r0 of Inl e \<Rightarrow> True | Inr None \<Rightarrow> True
         | Inr (Some info) \<Rightarrow>
             ci_channel_id info = c \<and>
             api_log s0 = api_log s @ [(developerKey (current_analyzer s), ChannelsList c)])"
    using b t e k
    by (auto simp: channel_details_body_def Let_def same_registry_def
        split: sum.splits list.splits stat_value.splits if_splits)
  then show ?thesis using assms b
    by (auto simp: get_channel_details_def split: sum.splits option.splits)
qed

lemma scan_items_effect:
  "scan_items R items s found seen = (found', s') \<Longrightarrow>
     same_registry s s' \<and>
     (\<exists>new. api_log s' = api_log s @ new \<and>
        (\<forall>c \<in> set new. \<exists>item \<in> set items. snd c = ChannelsList (si_channelId item) \<and>
            \<not> is_discovered s (fake_channel_info item) (Some item))) \<and>
     (\<exists>added. found' = found @ added \<and>
        (\<forall>info \<in> set added. \<exists>item \<in> set items. ci_channel_id info = si_channelId item \<and>
            \<not> is_discovered s (fake_channel_info item) (Some item) \<and>
            \<not> is_discovered s info (Some item)))"
proof (induction items arbitrary: s found seen)
  case Nil
  then show ?case by (simp add: same_registry_refl)
next
  case (Cons item items)
  let ?c = "si_channelId item"
  show ?case
  proof (cases "?c \<in> seen \<or> ?c \<in> discovered_channels s \<or>
                is_discovered s (fake_channel_info item) (Some item)")
    case True
    then have "scan_items R items s found seen = (found', s')"
      using Cons.prems by (auto simp: Let_def split: if_splits)
    from Cons.IH[OF this] show ?thesis by (auto; blast)
  next
    case False
    obtain r s1 where d: "get_channel_details R s ?c = (r, s1)"
      by (cases "get_channel_details R s ?c")
    note e = get_channel_details_effect[OF d]
    then have sr: "same_registry s s1" by simp
    from e obtain new1 where n1: "api_log s1 = api_log s @ new1" "snd ` set new1 \<subseteq> {ChannelsList ?c}"
      by blast
    define found1 where
      "found1 = (case r of None \<Rightarrow> found
                 | Some info \<Rightarrow> if is_discovered s1 info (Some item) then found else found @ [info])"
    have rec: "scan_items R items s1 found1 (insert ?c seen) = (found', s')"
      using Cons.prems False d
      by (auto simp: Let_def found1_def split: option.splits if_splits)
    from Cons.IH[OF rec] obtain new2 added2 where
      i: "same_registry s1 s'" "api_log s' = api_log s1 @ new2"
         "\<forall>c \<in> set new2. \<exists>item \<in> set items. snd c = ChannelsList (si_channelId item) \<and>
            \<not> is_discovered s1 (fake_channel_info item) (Some item)"
         "found' = found1 @ added2"
         "\<forall>info \<in> set added2. \<exists>item \<in> set items. ci_channel_id info = si_channelId item \<and>
            \<not> is_discovered s1 (fake_channel_info item) (Some item) \<and>
            \<not> is_discovered s1 info (Some item)"
      by blast
    have a: "same_registry s s'" using sr i(1) by (rule same_registry_trans)
    have b: "api_log s' = api_log s @ (new1 @ new2)" using n1 i(2) by simp
    have c: "\<forall>c \<in> set (new1 @ new2). \<exists>it \<in> set (item # items).
               snd c = ChannelsList (si_channelId it) \<and>
               \<not> is_discovered s (fake_channel_info it) (Some it)"
      using n1(2) i(3) False same_registry_is_discovered[OF sr] by (auto; blast)
    define added1 where
      "added1 = (case r of None \<Rightarrow> []
                 | Some info \<Rightarrow> if is_discovered s1 info (Some item) then [] else [info])"
    have f1: "found1 = found @ added1"
      "\<forall>info \<in> set added1. ci_channel_id info = ?c \<and> \<not> is_discovered s info (Some item)"
      using e same_registry_is_discovered[OF sr]
      by (auto simp: found1_def added1_def split: option.splits if_splits)
    have dd: "found' = found @ (added1 @ added2)" using f1(1) i(4) by simp
    have ee: "\<forall>info \<in> set (added1 @ added2). \<exists>it \<in> set (item # items).
               ci_channel_id info = si_channelId it \<and>
               \<not> is_discovered s (fake_channel_info it) (Some it) \<and>
               \<not> is_discovered s info (Some it)"
      using f1(2) i(5) False same_registry_is_discovered[OF sr] by (auto; blast)
    show ?thesis using a b c dd ee by blast
  qed
qed


lemma switch_to_next_api_key_effect:
  "switch_to_next_api_key s = (r, s') \<Longrightarrow> same_registry s s' \<and> api_log s' = api_log s"
  by (auto simp: switch_to_next_api_key_def initialize_current_analyzer_def Let_def
      same_registry_def split: if_splits)

lemma search_attempt_effect: "skips_registered s (search_attempt R s keyword n)"
proof -
  obtain r1 s1 where t: "track_api_usage s = (r1, s1)" by (cases "track_api_usage s")
  note e1 = track_api_usage_effect[OF t]
  show ?thesis
  proof (cases r1)
    case (Inl e)
    then show ?thesis using t e1 by (simp add: search_attempt_def skips_registered_def)
  next
    case (Inr u)
    let ?k = "developerKey (current_analyzer s1)"
    let ?call = "SearchList keyword None ''relevance'' n (Some ''2024-01-01T00:00:00Z'')"
    let ?s2 = "s1\<lparr>api_log := api_log s1 @ [(?k, ?call)]\<rparr>"
    have r2: "same_registry s ?s2" using e1 by (simp add: same_registry_def)
    show ?thesis
    proof (cases "search_execute R (api_log s1) ?k ?call")
      case (Inl e)
      then show ?thesis using t Inr e1 r2
        by (simp add: search_attempt_def skips_registered_def Let_def)
    next
      case items: (Inr items)
      obtain found s3 where sc: "scan_items R items ?s2 [] {} = (found, s3)"
        by (cases "scan_items R items ?s2 [] {}")
      from scan_items_effect[OF sc] obtain new where
        i: "same_registry ?s2 s3" "api_log s3 = api_log ?s2 @ new"
           "\<forall>c \<in> set new. \<exists>item \<in> set items. snd c = ChannelsList (si_channelId item) \<and>
              \<not> is_discovered ?s2 (fake_channel_info item) (Some item)"
           "\<forall>info \<in> set found. \<exists>item \<in> set items. ci_channel_id info = si_channelId item \<and>
              \<not> is_discovered ?s2 (fake_channel_info item) (Some item) \<and>
              \<not> is_discovered ?s2 info (Some item)"
        by auto
      have a: "same_registry s s3" using r2 i(1) by (rule same_registry_trans)
      have b: "api_log s3 = api_log s @ ((?k, ?call) # new)" using i(2) e1 by simp
      have c: "\<forall>c \<in> set ((?k, ?call) # new). \<forall>channel_id. snd c = ChannelsList channel_id \<longrightarrow>
                 \<not> id_in_registry s channel_id"
        using i(3) id_in_registry_is_discovered same_registry_id[OF r2] by fastforce
      have d: "\<forall>info \<in> set found. \<not> id_in_registry s (ci_channel_id info)"
        using i(4) id_in_registry_is_discovered same_registry_id[OF r2] by fastforce
      have h: "\<forall>info \<in> set found. \<not> handle_in_registry s info"
        using i(4) handle_in_registry_is_discovered same_registry_handle[OF r2] by fastforce
      have out: "search_attempt R s keyword n = (Inr found, s3)"
        using t Inr items sc by (simp add: search_attempt_def Let_def)
      show ?thesis unfolding out skips_registered_def using a b c d h by auto
    qed
  qed
qed

lemma skips_registered_after:
  assumes "same_registry s s1" and "api_log s1 = api_log s @ new1"
    and "\<forall>c \<in> set new1. \<forall>channel_id. snd c = ChannelsList channel_id \<longrightarrow>
            \<not> id_in_registry s channel_id"
    and "skips_registered s1 out"
  shows "skips_registered s out"
proof -
  from assms(4) obtain new2 where
    n2: "api_log (snd out) = api_log s1 @ new2"
        "\<forall>c \<in> set new2. \<forall>channel_id. snd c = ChannelsList channel_id \<longrightarrow>
            \<not> id_in_registry s1 channel_id"
    by (auto simp: skips_registered_def)
  have "api_log (snd out) = api_log s @ (new1 @ new2)" using n2(1) assms(2) by simp
  moreover have "\<forall>c \<in> set (new1 @ new2). \<forall>channel_id. snd c = ChannelsList channel_id \<longrightarrow>
            \<not> id_in_registry s channel_id"
    using assms(3) n2(2) same_registry_id[OF assms(1)] by auto
  moreover have "same_registry s (snd out)"
    using assms(1,4) same_registry_trans by (auto simp: skips_registered_def)
  moreover have "case fst out of
         Inl e \<Rightarrow> True
       | Inr found \<Rightarrow>
           \<forall>info \<in> set found. \<not> id_in_registry s (ci_channel_id info) \<and>
                                \<not> handle_in_registry s info"
    using assms(4) same_registry_id[OF assms(1)] same_registry_handle[OF assms(1)]
    by (auto simp: skips_registered_def split: sum.splits)
  ultimately show ?thesis unfolding skips_registered_def by blast
qed

lemma search_channels_by_keyword_effect:
  "skips_registered s (search_channels_by_keyword R s keyword n)"
proof (induction R s keyword n rule: search_channels_by_keyword.induct)
  case (1 R s keyword n)
  obtain r1 s1 where a: "search_attempt R s keyword n = (r1, s1)"
    by (cases "search_attempt R s keyword n")
  have e1: "skips_registered s (r1, s1)" using search_attempt_effect[of s R keyword n] a by simp
  show ?case
  proof (cases r1)
    case (Inr found)
    then show ?thesis using a e1 by (subst search_channels_by_keyword.simps) simp
  next
    case (Inl e)
    show ?thesis
    proof (cases "is_quota_error e")
      case False
      then have "search_channels_by_keyword R s keyword n = (Inr [], s1)"
        using a Inl by (subst search_channels_by_keyword.simps) simp
      then show ?thesis using e1 by (simp add: skips_registered_def)
    next
      case True
      obtain r2 s2 where sw: "switch_to_next_api_key s1 = (r2, s2)"
        by (cases "switch_to_next_api_key s1")
      note e2 = switch_to_next_api_key_effect[OF sw]
      from e1 obtain new1 where n1: "same_registry s s1" "api_log s1 = api_log s @ new1"
        "\<forall>c \<in> set new1. \<forall>channel_id. snd c = ChannelsList channel_id \<longrightarrow>
            \<not> id_in_registry s channel_id"
        by (auto simp: skips_registered_def)
      have r12: "same_registry s s2" using n1(1) e2 same_registry_trans by blast
      have l2: "api_log s2 = api_log s @ new1" using n1(2) e2 by simp
      show ?thesis
      proof (cases r2)
        case exhausted: (Inl e2)
        then have "search_channels_by_keyword R s keyword n = (Inl e2, s2)"
          using a Inl True sw by (subst search_channels_by_keyword.simps) simp
        then show ?thesis using r12 l2 n1(3) by (auto simp: skips_registered_def)
      next
        case switched: (Inr u)
        have eq: "search_channels_by_keyword R s keyword n =
                    search_channels_by_keyword R s2 keyword n"
          using a Inl True sw switched by (subst search_channels_by_keyword.simps) simp
        have "skips_registered s2 (search_channels_by_keyword R s2 keyword n)"
          using "1.IH"[OF a[symmetric] _ True sw[symmetric]] Inl switched by simp
        from skips_registered_after[OF r12 l2 n1(3) this] show ?thesis using eq by simp
      qed
    qed
  qed
qed

text \<open>
  C9, as the program has it. A search result that is in the registry by what it
  carries (the handle read from its channel title, or its channel id) is skipped by the
  loop with no effect at all: no \<open>channels().list\<close> call, nothing added, no state
  changed. A channel whose handle is only known from its details and is registered is
  never added to the channels found: either the result was skipped without a call, or
  it is skipped after the one \<open>channels().list\<close> call that fetched the details. The
  whole search, key rotations included, never touches the classifier; it returns no
  channel whose handle or id is registered, so none reaches the classification; and for
  a registered channel id it sends no \<open>channels().list\<close> call.
\<close>

theorem registry_match_skips_without_calls:
  "(search_result_in_registry s item \<longrightarrow>
      scan_items R (item # items) s found seen = scan_items R items s found seen) \<and>
   (handle_in_registry s info \<and>
    get_channel_details R s (si_channelId item) = (Some info, s') \<longrightarrow>
      api_log s' = api_log s @ [(developerKey (current_analyzer s), ChannelsList (si_channelId item))] \<and>
      (scan_items R (item # items) s found seen = scan_items R items s found seen \<or>
       scan_items R (item # items) s found seen =
         scan_items R items s' found (insert (si_channelId item) seen))) \<and>
   ai_analyzer (snd (search_channels_by_keyword R s keyword n)) = ai_analyzer s \<and>
   (\<forall>channels. fst (search_channels_by_keyword R s keyword n) = Inr channels \<longrightarrow>
      (\<forall>found_info \<in> set channels.
         \<not> handle_in_registry s found_info \<and> \<not> id_in_registry s (ci_channel_id found_info))) \<and>
   (id_in_registry s channel_id \<longrightarrow>
      (\<exists>new. api_log (snd (search_channels_by_keyword R s keyword n)) = api_log s @ new \<and>
             (\<forall>k. (k, ChannelsList channel_id) \<notin> set new)) \<and>
      (\<forall>channels. fst (search_channels_by_keyword R s keyword n) = Inr channels \<longrightarrow>
             channel_id \<notin> ci_channel_id ` set channels))"
proof -
  note e = search_channels_by_keyword_effect[of s R keyword n]
  have 1: "search_result_in_registry s item \<longrightarrow>
      scan_items R (item # items) s found seen = scan_items R items s found seen"
    using in_registry_is_discovered[of s item] by (simp add: Let_def)
  have 2: "handle_in_registry s info \<and>
    get_channel_details R s (si_channelId item) = (Some info, s') \<longrightarrow>
      api_log s' = api_log s @ [(developerKey (current_analyzer s), ChannelsList (si_channelId item))] \<and>
      (scan_items R (item # items) s found seen = scan_items R items s found seen \<or>
       scan_items R (item # items) s found seen =
         scan_items R items s' found (insert (si_channelId item) seen))"
  proof
    assume h: "handle_in_registry s info \<and>
      get_channel_details R s (si_channelId item) = (Some info, s')"
    then have d: "get_channel_details R s (si_channelId item) = (Some info, s')" by simp
    note g = get_channel_details_effect[OF d]
    have "handle_in_registry s' info"
      using h g same_registry_handle[of s s' info] by simp
    then have "is_discovered s' info (Some item)"
      by (rule handle_in_registry_is_discovered)
    then have "scan_items R (item # items) s found seen = scan_items R items s found seen \<or>
       scan_items R (item # items) s found seen =
         scan_items R items s' found (insert (si_channelId item) seen)"
      using d by (simp add: Let_def)
    then show "api_log s' = api_log s @ [(developerKey (current_analyzer s), ChannelsList (si_channelId item))] \<and>
      (scan_items R (item # items) s found seen = scan_items R items s found seen \<or>
       scan_items R (item # items) s found seen =
         scan_items R items s' found (insert (si_channelId item) seen))"
      using g by simp
  qed
  have 3: "ai_analyzer (snd (search_channels_by_keyword R s keyword n)) = ai_analyzer s"
    using e by (simp add: skips_registered_def same_registry_def)
  have 4: "\<forall>channels. fst (search_channels_by_keyword R s keyword n) = Inr channels \<longrightarrow>
      (\<forall>found_info \<in> set channels.
         \<not> handle_in_registry s found_info \<and> \<not> id_in_registry s (ci_channel_id found_info))"
    using e unfolding skips_registered_def by (auto split: sum.splits)
  have 5: "id_in_registry s channel_id \<longrightarrow>
      (\<exists>new. api_log (snd (search_channels_by_keyword R s keyword n)) = api_log s @ new \<and>
             (\<forall>k. (k, ChannelsList channel_id) \<notin> set new)) \<and>
      (\<forall>channels. fst (search_channels_by_keyword R s keyword n) = Inr channels \<longrightarrow>
             channel_id \<notin> ci_channel_id ` set channels)"
    using e unfolding skips_registered_def by (auto split: sum.splits; fastforce)
  show ?thesis using 1 2 3 4 5 by blast
qed

theorem registry_match_skips_without_calls_witness:
  "search_result_in_registry registry_finder (creator_item ''UCnew'' ''@ExistingCreator'') \<and>
   scan_items (creator_remote (creator_item ''UCknown'' ''Known Channel''))
     [creator_item ''UCnew'' ''@ExistingCreator''] registry_finder [] {} = ([], registry_finder) \<and>
   id_in_registry registry_finder ''UCknown'' \<and>
   fst (search_channels_by_keyword (creator_remote (creator_item ''UCknown'' ''Known Channel''))
          registry_finder ''first date tips'' 50) = Inr [] \<and>
   api_log (snd (search_channels_by_keyword (creator_remote (creator_item ''UCknown'' ''Known Channel''))
          registry_finder ''first date tips'' 50)) = [(''key-a'', keyword_search)] \<and>
   ai_analyzer (snd (search_channels_by_keyword (creator_remote (creator_item ''UCknown'' ''Known Channel''))
          registry_finder ''first date tips'' 50)) = example_ai \<and>
   handle_in_registry registry_finder creator_info \<and>
   get_channel_details (creator_remote (creator_item ''UCknown'' ''Known Channel'')) registry_finder
       ''UCexisting'' =
     (Some creator_info,
      registry_finder\<lparr>api_calls_per_key := (api_calls_per_key registry_finder)(0 \<mapsto> 1),
                        api_log := [(''key-a'', ChannelsList ''UCexisting'')]\<rparr>) \<and>
   scan_items (creator_remote (creator_item ''UCknown'' ''Known Channel''))
     [creator_item ''UCexisting'' ''Existing Creator''] registry_finder [] {} =
     ([], registry_finder\<lparr>api_calls_per_key := (api_calls_per_key registry_finder)(0 \<mapsto> 1),
                           api_log := [(''key-a'', ChannelsList ''UCexisting'')]\<rparr>)"
proof -
  let ?R = "creator_remote (creator_item ''UCknown'' ''Known Channel'')"
  let ?item = "creator_item ''UCnew'' ''@ExistingCreator''"
  note t = registry_match_skips_without_calls
             [where s = registry_finder and item = ?item and R = ?R and items = "[]"
                and found = "[]" and seen = "{}" and channel_id = "''UCknown''"
                and keyword = "''first date tips''" and n = 50]
  have h1: "search_result_in_registry registry_finder ?item" by code_simp
  have h4: "id_in_registry registry_finder ''UCknown''" by code_simp
  have c1: "scan_items ?R [?item] registry_finder [] {} = ([], registry_finder)"
    using t h1 by simp
  have c3: "ai_analyzer (snd (search_channels_by_keyword ?R registry_finder ''first date tips'' 50)) =
              example_ai"
    using t by (simp add: registry_finder_def example_pool_def)
  have c4: "fst (search_channels_by_keyword ?R registry_finder ''first date tips'' 50) = Inr []"
    by code_simp
  have c5: "api_log (snd (search_channels_by_keyword ?R registry_finder ''first date tips'' 50)) =
              [(''key-a'', keyword_search)]"
    by code_simp
  let ?item2 = "creator_item ''UCexisting'' ''Existing Creator''"
  let ?s2 = "registry_finder\<lparr>api_calls_per_key := (api_calls_per_key registry_finder)(0 \<mapsto> 1),
                             api_log := [(''key-a'', ChannelsList ''UCexisting'')]\<rparr>"
  note t2 = registry_match_skips_without_calls
             [where s = registry_finder and item = ?item2 and R = ?R and items = "[]"
                and found = "[]" and seen = "{}" and info = creator_info and s' = ?s2]
  have g1: "\<not> is_discovered registry_finder (fake_channel_info ?item2) (Some ?item2)"
    by code_simp
  have g2: "get_channel_details ?R registry_finder ''UCexisting'' = (Some creator_info, ?s2)"
    by (simp add: get_channel_details_def channel_details_body_def track_api_usage_def
        registry_finder_def example_pool_def new_analyzer_def creator_remote_def
        creator_info_def Let_def)
  have g3: "handle_in_registry registry_finder creator_info"
    by code_simp
  have g0: "si_channelId ?item2 \<notin> {}"
    "si_channelId ?item2 \<notin> discovered_channels registry_finder"
    by (simp_all add: registry_finder_def example_pool_def)
  have g2': "get_channel_details ?R registry_finder (si_channelId ?item2) = (Some creator_info, ?s2)"
    using g2 by (simp add: creator_item_def)
  have g4: "is_discovered ?s2 creator_info (Some ?item2)"
    by code_simp
  have d: "scan_items ?R [?item2] registry_finder [] {} = scan_items ?R [] registry_finder [] {} \<or>
           scan_items ?R [?item2] registry_finder [] {} =
             scan_items ?R [] ?s2 [] (insert (si_channelId ?item2) {})"
    using t2 g2' g3 by blast
  have c2: "scan_items ?R [?item2] registry_finder [] {} = ([], ?s2)"
    using d g0 g1 g2' g4 by (simp add: Let_def)
  show ?thesis by (intro conjI h1 c1 h4 c4 c5 c3 g3 g2 c2)
qed

text \<open>
  The registry holds the handle \<open>existingcreator\<close>; the search result carries the channel
  title \<open>Existing Creator\<close>; the details give the handle \<open>@existingcreator\<close>. The channel
  is skipped, but only after the \<open>channels().list\<close> call for it was sent.
\<close>

theorem registry_handle_counterexample:
  "fst (get_channel_details (creator_remote (creator_item ''UCexisting'' ''Existing Creator''))
          registry_finder ''UCexisting'') = Some creator_info \<and>
   lower (lstrip_char CHR ''@'' (strip (ci_handle creator_info))) \<in> discovered_handles registry_finder \<and>
   fst (search_channels_by_keyword (creator_remote (creator_item ''UCexisting'' ''Existing Creator''))
          registry_finder ''first date tips'' 50) = Inr [] \<and>
   api_log (snd (search_channels_by_keyword
          (creator_remote (creator_item ''UCexisting'' ''Existing Creator''))
          registry_finder ''first date tips'' 50)) =
     [(''key-a'', keyword_search), (''key-a'', ChannelsList ''UCexisting'')]"
  by code_simp

section \<open>Evicting stored results\<close>

lemma foldl_dict_del: "foldl dict_del d ks = filter (\<lambda>p. fst p \<notin> set ks) d"
proof (induction ks arbitrary: d)
  case Nil
  then show ?case by simp
next
  case (Cons k ks)
  have "dict_del d k = filter (\<lambda>p. fst p \<noteq> k) d"
    by (simp add: dict_del_def case_prod_unfold)
  then show ?case using Cons.IH[of "dict_del d k"] by (simp add: conj_commute)
qed

lemma dict_set_fresh: "k \<notin> set (dict_keys d) \<Longrightarrow> dict_set d k v = d @ [(k, v)]"
  by (induction d) (auto simp: dict_keys_def)

lemma sort_snoc_least:
  fixes x :: "'a::linorder"
  assumes "sorted xs" and "\<forall>y \<in> set xs. x < y"
  shows "sort (xs @ [x]) = x # xs"
proof -
  have "foldr insort xs [x] = x # xs" using assms
  proof (induction xs)
    case Nil
    then show ?case by simp
  next
    case (Cons a xs)
    then have "foldr insort xs [x] = x # xs" by simp
    moreover have "\<not> a \<le> x" using Cons.prems(2) by auto
    moreover have "insort a xs = a # xs"
      using Cons.prems(1) by (intro insort_is_Cons) auto
    ultimately show ?case by simp
  qed
  then show ?thesis by (simp add: sort_key_def)
qed

lemma of_char_decimal_digit: "d < 10 \<Longrightarrow> (of_char (decimal_digit d) :: nat) = 48 + d"
  by (simp add: decimal_digit_def)

lemma decimal_digit_less:
  "d < 10 \<Longrightarrow> e < 10 \<Longrightarrow> decimal_digit d < decimal_digit e \<longleftrightarrow> d < e"
  by (simp add: less_char_def of_char_decimal_digit)

lemma decimal_digit_eq:
  "d < 10 \<Longrightarrow> e < 10 \<Longrightarrow> decimal_digit d = decimal_digit e \<longleftrightarrow> d = e"
  using of_char_decimal_digit[of d] of_char_decimal_digit[of e]
  by (metis add_left_cancel)

lemma stored_id_less:
  assumes "i < j" and "j < 100"
  shows "stored_id i < stored_id j"
proof -
  have b: "i div 10 < 10" "j div 10 < 10" "i mod 10 < 10" "j mod 10 < 10"
    using assms by simp_all
  have "i div 10 < j div 10 \<or> (i div 10 = j div 10 \<and> i mod 10 < j mod 10)"
    using assms(1) by (metis div_le_mono less_imp_le_nat mod_div_decomp nat_add_left_cancel_less nat_less_le)
  then show ?thesis
    using b by (auto simp: stored_id_def decimal_digit_less decimal_digit_eq)
qed

lemma newest_id_less: "newest_id < stored_id i"
  by (simp add: newest_id_def stored_id_def less_char_def)


lemma stored_id_inj: "i < 100 \<Longrightarrow> j < 100 \<Longrightarrow> stored_id i = stored_id j \<longleftrightarrow> i = j"
  using stored_id_less[of i j] stored_id_less[of j i]
  by (metis less_irrefl linorder_neqE_nat)

lemma sorted_stored_ids: "j \<le> 100 \<Longrightarrow> sorted (map stored_id [i..<j])"
proof -
  assume j: "j \<le> 100"
  have "sorted_wrt (\<lambda>x y. stored_id x \<le> stored_id y) [i..<j]"
  proof (rule sorted_wrt_mono_rel[OF _ sorted_wrt_upt])
    fix x y
    assume "x \<in> set [i..<j]" "y \<in> set [i..<j]" "x < y"
    then show "stored_id x \<le> stored_id y"
      using stored_id_less[of x y] j by simp
  qed
  then show ?thesis by (simp add: sorted_map)
qed

lemma stored_keys: "dict_keys (stored_results i j) = map stored_id [i..<j]"
  by (simp add: dict_keys_def stored_results_def comp_def)

lemma newest_id_fresh: "newest_id \<notin> set (dict_keys (stored_results i j))"
proof
  assume "newest_id \<in> set (dict_keys (stored_results i j))"
  then obtain n where "newest_id = stored_id n"
    unfolding stored_keys by auto
  then show False using newest_id_less[of n] by simp
qed

lemma oldest_keys_full:
  "take 50 (sort (dict_keys (stored_results 0 100 @ [(newest_id, r)]))) =
     newest_id # map stored_id [0..<49]"
proof -
  have "sort (map stored_id [0..<100] @ [newest_id]) = newest_id # map stored_id [0..<100]"
    by (rule sort_snoc_least) (auto simp: sorted_stored_ids newest_id_less)
  then have "take 50 (sort (map stored_id [0..<100] @ [newest_id])) =
               newest_id # take 49 (map stored_id [0..<100])"
    by (simp del: upt_rec_numeral)
  also have "take 49 (map stored_id [0..<100]) = map stored_id [0..<49]"
    by (simp add: take_map del: upt_rec_numeral)
  finally show ?thesis by (simp add: dict_keys_def stored_keys[unfolded dict_keys_def])
qed

lemma stored_results_split: "stored_results 0 100 = stored_results 0 49 @ stored_results 49 100"
proof -
  have "[0..<49 + 51] = [0..<49] @ [49..<49 + 51]"
    by (rule upt_add_eq_append) simp
  then have "[0..<100] = [0..<49] @ [49..<100]"
    by (simp del: upt_rec_numeral)
  then show ?thesis by (simp add: stored_results_def del: upt_rec_numeral)
qed

lemma store_result_full:
  assumes id: "rs_request_id r = newest_id"
  shows "store_result (stored_results 0 100) r = stored_results 49 100"
proof -
  have d1: "dict_set (stored_results 0 100) newest_id r = stored_results 0 100 @ [(newest_id, r)]"
    by (rule dict_set_fresh) (rule newest_id_fresh)
  have len: "length (stored_results 0 100 @ [(newest_id, r)]) > 100"
    by (simp add: stored_results_def del: upt_rec_numeral)
  have lo: "filter (\<lambda>p. fst p \<notin> set (newest_id # map stored_id [0..<49])) (stored_results 0 49) = []"
    by (auto simp: stored_results_def filter_empty_conv simp del: upt_rec_numeral)
  have hi: "filter (\<lambda>p. fst p \<notin> set (newest_id # map stored_id [0..<49])) (stored_results 49 100) =
              stored_results 49 100"
  proof (rule filter_True, rule ballI)
    fix p assume "p \<in> set (stored_results 49 100)"
    then obtain n where n: "49 \<le> n" "n < 100" "fst p = stored_id n"
      by (auto simp: stored_results_def simp del: upt_rec_numeral)
    have a: "stored_id n \<noteq> newest_id" using newest_id_less[of n] by auto
    have b: "stored_id n \<notin> stored_id ` {0..<49}"
    proof
      assume "stored_id n \<in> stored_id ` {0..<49}"
      then obtain x where x: "x < 49" "stored_id n = stored_id x" by auto
      then have "n = x" using stored_id_inj[of n x] n(2) by simp
      then show False using x(1) n(1) by simp
    qed
    show "fst p \<notin> set (newest_id # map stored_id [0..<49])"
      using n a b by (simp del: upt_rec_numeral)
  qed
  show ?thesis
    unfolding store_result_def Let_def id d1 foldl_dict_del oldest_keys_full
    using len lo hi by (simp add: stored_results_split del: upt_rec_numeral)
qed

text \<open>
  C8. The results are meant to be evicted oldest first. The program picks the keys to
  delete with \<open>sorted(self.results.keys())[:50]\<close>: the 50 smallest request ids in string
  order, not the 50 least recently inserted. With 100 results stored and a request
  whose id sorts before every stored id, one turn of the worker stores the new result
  and deletes it at once, together with the 49 smallest stored ids: the most recently
  inserted result is gone, and the 50th oldest stored result (\<open>a4900000-...\<close>) is kept.
\<close>

theorem eviction_discards_newest_result:
  "length (results full_server) = 100 \<and>
   map rq_request_id (request_queue full_server) = [newest_id] \<and>
   results (process_queue_step (\<lambda>video_id minutes. Inr (Some ''hello'')) 2 full_server) =
     stored_results 49 100 \<and>
   newest_id \<notin> set (dict_keys (results
     (process_queue_step (\<lambda>video_id minutes. Inr (Some ''hello'')) 2 full_server)))"
proof -
  have l: "length (results full_server) = 100"
    by (simp add: full_server_def stored_results_def del: upt_rec_numeral)
  have q: "map rq_request_id (request_queue full_server) = [newest_id]"
    by (simp add: full_server_def)
  have s: "store_result (stored_results 0 100)
             \<lparr>rs_request_id = newest_id, rs_video_id = ''vid-new'', rs_success = True,
              rs_transcript = Some ''hello'', rs_error = None, rs_processing_time = 2\<rparr> =
           stored_results 49 100"
    by (rule store_result_full) simp
  have r: "results (process_queue_step (\<lambda>video_id minutes. Inr (Some ''hello'')) 2 full_server) =
             stored_results 49 100"
    by (simp add: process_queue_step_def full_server_def s)
  show ?thesis using l q r newest_id_fresh[of 49 100] by simp
qed

end
